theory Spec2Isabelle
  imports Main
begin

section \<open>Strings of the JavaScript runtime\<close>

text \<open>
  A JavaScript string is modelled as a \<open>string\<close>, one \<open>char\<close> per code unit, which
  covers the code units below 256 (ASCII and Latin-1). The functions of this section are
  the built-in string operations that \<^verbatim>\<open>src/index.js\<close> calls.
\<close>

definition is_ws :: "char \<Rightarrow> bool" where
  \<comment> \<open>WhiteSpace and LineTerminator code units below 256: TAB, LF, VT, FF, CR, SP, NBSP.\<close>
  "is_ws c \<longleftrightarrow> c \<in> {CHR 0x09, CHR 0x0A, CHR 0x0B, CHR 0x0C, CHR 0x0D, CHR 0x20, CHR 0xA0}"

definition trimStart :: "string \<Rightarrow> string" where
  "trimStart s = dropWhile is_ws s"

definition trim :: "string \<Rightarrow> string" where
  \<comment> \<open>\<^verbatim>\<open>String.prototype.trim\<close>\<close>
  "trim s = rev (dropWhile is_ws (rev (dropWhile is_ws s)))"

definition startsWith :: "string \<Rightarrow> string \<Rightarrow> bool" where
  \<comment> \<open>\<^verbatim>\<open>s.startsWith(p)\<close>\<close>
  "startsWith s p \<longleftrightarrow> take (length p) s = p"

definition lower_char :: "char \<Rightarrow> char" where
  "lower_char c =
     (let n = (of_char c :: nat)
      in if (65 \<le> n \<and> n \<le> 90) \<or> (192 \<le> n \<and> n \<le> 222 \<and> n \<noteq> 215)
         then char_of (n + 32) else c)"

definition toLowerCase :: "string \<Rightarrow> string" where
  "toLowerCase s = map lower_char s"

fun split_at :: "string \<Rightarrow> string \<Rightarrow> string \<Rightarrow> string list" where
  "split_at sep cur [] = [rev cur]"
| "split_at sep cur (c # cs) =
     (if startsWith (c # cs) sep
      then rev cur # split_at sep [] (drop (length sep - 1) cs)
      else split_at sep (c # cur) cs)"

definition split :: "string \<Rightarrow> string \<Rightarrow> string list" where
  \<comment> \<open>\<^verbatim>\<open>s.split(sep)\<close>; an empty separator splits between all code units.\<close>
  "split s sep = (if sep = [] then map (\<lambda>c. [c]) s else split_at sep [] s)"

fun join :: "string \<Rightarrow> string list \<Rightarrow> string" where
  \<comment> \<open>\<^verbatim>\<open>xs.join(sep)\<close> on an array of strings\<close>
  "join sep [] = []"
| "join sep [x] = x"
| "join sep (x # y # ys) = x @ sep @ join sep (y # ys)"

definition repeat :: "string \<Rightarrow> nat \<Rightarrow> string" where
  \<comment> \<open>\<^verbatim>\<open>s.repeat(n)\<close>\<close>
  "repeat s n = concat (replicate n s)"

definition slice_5_m1 :: "string \<Rightarrow> string" where
  \<comment> \<open>\<^verbatim>\<open>s.slice(5, -1)\<close>: from index 5 up to, not including, the last code unit\<close>
  "slice_5_m1 s = butlast (drop 5 s)"

section \<open>Numbers of the JavaScript runtime\<close>

text \<open>
  A number is \<open>NaN\<close>, an infinity, or a finite value written as a decimal: \<open>Dec m e\<close> is
  \<open>m * 10 ^ e\<close>, with \<open>m\<close> not divisible by ten unless the number is zero (\<open>Dec 0 0\<close>).
  The decimal stands for the IEEE double nearest to it; the model agrees with the runtime
  on numerals of at most 15 significant digits in the normal range of doubles, where
  reading and printing a numeral loses nothing. Rounding of longer numerals, overflow to
  an infinity and the sign of zero are not represented.
\<close>

datatype jsnum = NaN | PosInfinity | NegInfinity | Dec int int

function norm10 :: "int \<Rightarrow> int \<Rightarrow> int \<times> int" where
  "norm10 m e = (if m \<noteq> 0 \<and> m mod 10 = 0 then norm10 (m div 10) (e + 1) else (m, e))"
  by pat_completeness auto
termination
  by (relation "measure (\<lambda>(m, e). nat \<bar>m\<bar>)") auto

declare norm10.simps [simp del]

definition mk_num :: "int \<Rightarrow> int \<Rightarrow> jsnum" where
  "mk_num m e = (if m = 0 then Dec 0 0 else case norm10 m e of (m', e') \<Rightarrow> Dec m' e')"

definition num_of_int :: "int \<Rightarrow> jsnum" where
  "num_of_int i = mk_num i 0"

definition is_digit :: "char \<Rightarrow> bool" where
  "is_digit c \<longleftrightarrow> c \<in> set ''0123456789''"

definition digit_val :: "char \<Rightarrow> nat" where
  "digit_val c = of_char c - 48"

definition is_hex_digit :: "char \<Rightarrow> bool" where
  "is_hex_digit c \<longleftrightarrow> c \<in> set ''0123456789abcdefABCDEF''"

definition hex_val :: "char \<Rightarrow> nat" where
  "hex_val c =
     (if is_digit c then of_char c - 48
      else if c \<in> set ''abcdef'' then of_char c - 87
      else of_char c - 55)"

definition nat_of_digits :: "string \<Rightarrow> nat" where
  "nat_of_digits ds = foldl (\<lambda>a c. 10 * a + digit_val c) 0 ds"

definition nat_of_hex :: "string \<Rightarrow> nat" where
  "nat_of_hex ds = foldl (\<lambda>a c. 16 * a + hex_val c) 0 ds"

fun digits_of :: "nat \<Rightarrow> string" where
  "digits_of n =
     (if n < 10 then [char_of (48 + n)] else digits_of (n div 10) @ [char_of (48 + n mod 10)])"

declare digits_of.simps [simp del]

definition parseInt :: "string \<Rightarrow> jsnum" where
  \<comment> \<open>\<^verbatim>\<open>parseInt(s)\<close> without a radix: leading white space, a sign, then hexadecimal
      digits after \<^verbatim>\<open>0x\<close> or \<^verbatim>\<open>0X\<close> and decimal digits otherwise. The value is the
      exact integer: it is the runtime's up to \<open>2 ^ 53\<close> in magnitude; above, the runtime
      rounds to a double, which is not represented, nor is the sign of \<^verbatim>\<open>-0\<close>.\<close>
  "parseInt s =
     (let S = trimStart s;
          neg = startsWith S ''-'';
          S1 = (if startsWith S ''-'' \<or> startsWith S ''+'' then tl S else S);
          hex = (startsWith S1 ''0x'' \<or> startsWith S1 ''0X'');
          S2 = (if hex then drop 2 S1 else S1);
          Z = (if hex then takeWhile is_hex_digit S2 else takeWhile is_digit S2);
          v = (if hex then nat_of_hex Z else nat_of_digits Z)
      in if Z = [] then NaN else mk_num (if neg then - int v else int v) 0)"

definition exponent_part :: "string \<Rightarrow> int" where
  \<comment> \<open>the value of an ExponentPart at the head of the text, 0 when there is none\<close>
  "exponent_part r =
     (case r of
        [] \<Rightarrow> 0
      | c # r1 \<Rightarrow>
          if c = CHR ''e'' \<or> c = CHR ''E'' then
            (let neg = startsWith r1 ''-'';
                 r2 = (if startsWith r1 ''-'' \<or> startsWith r1 ''+'' then tl r1 else r1);
                 ds = takeWhile is_digit r2
             in if ds = [] then 0
                else if neg then - int (nat_of_digits ds) else int (nat_of_digits ds))
          else 0)"

definition decimal_literal :: "bool \<Rightarrow> string \<Rightarrow> jsnum" where
  \<comment> \<open>the value of the longest prefix of \<open>U\<close> that is a StrUnsignedDecimalLiteral other
      than \<^verbatim>\<open>Infinity\<close>, negated when \<open>neg\<close>: digits, a fraction, an exponent\<close>
  "decimal_literal neg U =
     (let ip = takeWhile is_digit U;
          r1 = dropWhile is_digit U;
          dot = startsWith r1 ''.'';
          fp = (if dot then takeWhile is_digit (tl r1) else []);
          r2 = (if dot then dropWhile is_digit (tl r1) else r1);
          m = int (nat_of_digits (ip @ fp))
      in if ip = [] \<and> fp = [] then NaN
         else mk_num (if neg then - m else m) (exponent_part r2 - int (length fp)))"

definition parseFloat :: "string \<Rightarrow> jsnum" where
  \<comment> \<open>\<^verbatim>\<open>parseFloat(s)\<close>: the longest prefix, after leading white space, that is a
      StrDecimalLiteral. The value is the exact decimal: it stands for the runtime's double
      for at most 15 significant digits in the normal range; rounding of longer literals,
      overflow, underflow and the sign of \<^verbatim>\<open>-0\<close> are not represented.\<close>
  "parseFloat s =
     (let S = trimStart s;
          neg = startsWith S ''-'';
          U = (if startsWith S ''-'' \<or> startsWith S ''+'' then tl S else S)
      in if startsWith U ''Infinity'' then (if neg then NegInfinity else PosInfinity)
         else decimal_literal neg U)"

definition pos_to_string :: "string \<Rightarrow> int \<Rightarrow> string" where
  \<comment> \<open>Number::toString for the digits \<open>ds\<close> of the mantissa and the exponent \<open>e\<close>;
      \<open>n\<close> is the position of the decimal point.\<close>
  "pos_to_string ds e =
     (let k = int (length ds); n = k + e
      in if k \<le> n \<and> n \<le> 21 then ds @ replicate (nat (n - k)) (CHR ''0'')
         else if 0 < n \<and> n \<le> 21 then take (nat n) ds @ ''.'' @ drop (nat n) ds
         else if - 6 < n \<and> n \<le> 0 then ''0.'' @ replicate (nat (- n)) (CHR ''0'') @ ds
         else
           (let es = (if n - 1 < 0 then ''-'' else ''+'') @ digits_of (nat \<bar>n - 1\<bar>)
            in if length ds = 1 then ds @ ''e'' @ es
               else take 1 ds @ ''.'' @ drop 1 ds @ ''e'' @ es))"

definition num_to_string :: "jsnum \<Rightarrow> string" where
  "num_to_string x =
     (case x of
        NaN \<Rightarrow> ''NaN''
      | PosInfinity \<Rightarrow> ''Infinity''
      | NegInfinity \<Rightarrow> ''-Infinity''
      | Dec m e \<Rightarrow>
          if m = 0 then ''0''
          else (if m < 0 then ''-'' else []) @ pos_to_string (digits_of (nat \<bar>m\<bar>)) e)"

section \<open>Values, errors and objects of the JavaScript runtime\<close>

text \<open>
  \<open>JObj\<close> lists the own enumerable properties of a plain object in the order of
  \<^verbatim>\<open>Object.entries\<close>. \<open>JFun n\<close> is the built-in function named \<open>n\<close> that a property
  read finds on the prototype of an object or array.
\<close>

datatype jsval =
    JUndefined
  | JNull
  | JBool bool
  | JNum jsnum
  | JStr string
  | JArr "jsval list"
  | JObj "(string \<times> jsval) list"
  | JFun string

text \<open>
  What a \<^verbatim>\<open>throw\<close> raises: \<open>Error m\<close> is \<^verbatim>\<open>new Error(m)\<close> of the program itself, the
  other two are raised by the runtime. \<open>message\<close> is \<^verbatim>\<open>error.message\<close>.
\<close>

datatype js_error = Error string | TypeError string | SyntaxError string

fun message :: "js_error \<Rightarrow> string" where
  "message (Error m) = m"
| "message (TypeError m) = m"
| "message (SyntaxError m) = m"

definition is_object :: "jsval \<Rightarrow> bool" where
  \<comment> \<open>\<^verbatim>\<open>typeof v === 'object' && v !== null\<close>\<close>
  "is_object v = (case v of JArr _ \<Rightarrow> True | JObj _ \<Rightarrow> True | _ \<Rightarrow> False)"

definition isArray :: "jsval \<Rightarrow> bool" where
  "isArray v = (case v of JArr _ \<Rightarrow> True | _ \<Rightarrow> False)"

text \<open>
  \<^verbatim>\<open>String(v)\<close>, also the conversion that \<^verbatim>\<open>parseInt\<close>, \<^verbatim>\<open>parseFloat\<close> and
  \<^verbatim>\<open>JSON.parse\<close> apply to their argument. An array joins its elements with commas,
  \<^verbatim>\<open>null\<close> and \<^verbatim>\<open>undefined\<close> elements giving the empty string. A plain object gives
  \<^verbatim>\<open>[object Object]\<close> through the inherited \<^verbatim>\<open>toString\<close>; when an own property
  \<^verbatim>\<open>toString\<close> hides it, neither that property nor \<^verbatim>\<open>valueOf\<close> yields a primitive
  and the conversion raises a TypeError (exact when the own \<^verbatim>\<open>toString\<close> is not itself a
  function, as in every value that \<^verbatim>\<open>JSON.parse\<close> returns).
\<close>

fun to_string :: "jsval \<Rightarrow> js_error + string"
  and join_elems :: "jsval list \<Rightarrow> js_error + string" where
  "to_string JUndefined = Inr ''undefined''"
| "to_string JNull = Inr ''null''"
| "to_string (JBool b) = Inr (if b then ''true'' else ''false'')"
| "to_string (JNum x) = Inr (num_to_string x)"
| "to_string (JStr s) = Inr s"
| "to_string (JArr xs) = join_elems xs"
| "to_string (JObj kvs) =
     (if ''toString'' \<in> set (map fst kvs)
      then Inl (TypeError ''Cannot convert object to primitive value'')
      else Inr ''[object Object]'')"
| "to_string (JFun n) = Inr (''function '' @ n @ ''() { [native code] }'')"
| "join_elems [] = Inr []"
| "join_elems (x # xs) =
     (case (if x = JUndefined \<or> x = JNull then Inr [] else to_string x) of
        Inl e \<Rightarrow> Inl e
      | Inr s \<Rightarrow>
          if xs = [] then Inr s
          else (case join_elems xs of Inl e \<Rightarrow> Inl e | Inr r \<Rightarrow> Inr (s @ '','' @ r)))"

definition object_prototype_keys :: "string list" where
  \<comment> \<open>the properties of \<^verbatim>\<open>Object.prototype\<close>\<close>
  "object_prototype_keys =
     [''constructor'', ''__defineGetter__'', ''__defineSetter__'', ''hasOwnProperty'',
      ''__lookupGetter__'', ''__lookupSetter__'', ''isPrototypeOf'',
      ''propertyIsEnumerable'', ''toString'', ''valueOf'', ''__proto__'',
      ''toLocaleString'']"

definition array_prototype_keys :: "string list" where
  \<comment> \<open>the properties of \<^verbatim>\<open>Array.prototype\<close> (ECMAScript 2023), \<^verbatim>\<open>length\<close> apart\<close>
  "array_prototype_keys =
     [''constructor'', ''at'', ''concat'', ''copyWithin'', ''fill'', ''find'', ''findIndex'',
      ''findLast'', ''findLastIndex'', ''lastIndexOf'', ''pop'', ''push'', ''reverse'',
      ''shift'', ''unshift'', ''slice'', ''sort'', ''splice'', ''includes'', ''indexOf'',
      ''join'', ''keys'', ''entries'', ''values'', ''forEach'', ''filter'', ''flat'',
      ''flatMap'', ''map'', ''every'', ''some'', ''reduce'', ''reduceRight'',
      ''toLocaleString'', ''toString'', ''toReversed'', ''toSorted'', ''toSpliced'', ''with'']"

definition is_canonical_index :: "string \<Rightarrow> bool" where
  \<comment> \<open>the decimal numeral of a natural number, without leading zeros\<close>
  "is_canonical_index k \<longleftrightarrow>
     k \<noteq> [] \<and> list_all is_digit k \<and> (k = ''0'' \<or> hd k \<noteq> CHR ''0'')"

definition is_array_index :: "string \<Rightarrow> bool" where
  "is_array_index k \<longleftrightarrow> is_canonical_index k \<and> nat_of_digits k < 4294967295"

definition has_property :: "string \<Rightarrow> jsval \<Rightarrow> bool" where
  \<comment> \<open>\<^verbatim>\<open>key in data\<close> for an object or array: own properties, then the prototype chain\<close>
  "has_property key data =
     (case data of
        JObj kvs \<Rightarrow> key \<in> set (map fst kvs) \<or> key \<in> set object_prototype_keys
      | JArr xs \<Rightarrow>
          (is_array_index key \<and> nat_of_digits key < length xs) \<or> key = ''length''
          \<or> key \<in> set array_prototype_keys \<or> key \<in> set object_prototype_keys
      | _ \<Rightarrow> False)"

definition inherited :: "string \<Rightarrow> string \<Rightarrow> jsval \<Rightarrow> string list \<Rightarrow> jsval" where
  \<comment> \<open>the value found on the prototype chain: the prototype itself for \<^verbatim>\<open>__proto__\<close>
      (it has no enumerable property of its own), the constructor, or a method\<close>
  "inherited key ctor proto keys =
     (if key = ''__proto__'' then proto
      else if key = ''constructor'' then JFun ctor
      else if key \<in> set keys then JFun key
      else JUndefined)"

definition get_property :: "jsval \<Rightarrow> string \<Rightarrow> jsval" where
  \<comment> \<open>\<^verbatim>\<open>data[key]\<close> for an object or array\<close>
  "get_property data key =
     (case data of
        JObj kvs \<Rightarrow>
          (case map_of kvs key of
             Some v \<Rightarrow> v
           | None \<Rightarrow> inherited key ''Object'' (JObj []) object_prototype_keys)
      | JArr xs \<Rightarrow>
          if is_array_index key \<and> nat_of_digits key < length xs then xs ! nat_of_digits key
          else if key = ''length'' then JNum (num_of_int (int (length xs)))
          else inherited key ''Array'' (JArr []) (array_prototype_keys @ object_prototype_keys)
      | _ \<Rightarrow> JUndefined)"

fun insert_index :: "string \<Rightarrow> jsval \<Rightarrow> (string \<times> jsval) list \<Rightarrow> (string \<times> jsval) list" where
  "insert_index k v [] = [(k, v)]"
| "insert_index k v ((k', v') # rest) =
     (if is_array_index k' \<and> nat_of_digits k' < nat_of_digits k
      then (k', v') # insert_index k v rest
      else (k, v) # (k', v') # rest)"

definition obj_set :: "(string \<times> jsval) list \<Rightarrow> string \<Rightarrow> jsval \<Rightarrow> (string \<times> jsval) list" where
  \<comment> \<open>\<^verbatim>\<open>obj[key] = v\<close> on a plain object. The key \<^verbatim>\<open>__proto__\<close> is the inherited
      accessor: it creates no own property (the prototype it may replace is not
      represented). An existing key keeps its place; a new array index goes among the
      array indices in ascending order, any other new key at the end.\<close>
  "obj_set kvs key v =
     (if key = ''__proto__'' then kvs
      else if key \<in> set (map fst kvs)
      then map (\<lambda>(k', v'). if k' = key then (k', v) else (k', v')) kvs
      else if is_array_index key then insert_index key v kvs
      else kvs @ [(key, v)])"

section \<open>The generator: \<^verbatim>\<open>src/index.js\<close>\<close>

subsection \<open>Construction\<close>

record JsonGenerator =
  apiKey :: string
  model :: string
  referer :: "string option"
  appName :: "string option"
  maxRetries :: int
  delimiter :: string

text \<open>
  The argument of the constructor; \<open>None\<close> is a field left out (\<^verbatim>\<open>undefined\<close>), which
  takes its default. \<^verbatim>\<open>maxRetries\<close> is a count and is modelled as an integer.
\<close>

record generator_config =
  cfg_apiKey :: "string option"
  cfg_model :: "string option"
  cfg_referer :: "string option"
  cfg_appName :: "string option"
  cfg_maxRetries :: "int option"
  cfg_delimiter :: "string option"

definition constructor :: "generator_config \<Rightarrow> js_error + JsonGenerator" where
  "constructor c =
     (case cfg_apiKey c of
        None \<Rightarrow> Inl (Error ''OpenRouter API key is required'')
      | Some k \<Rightarrow>
          if k = [] then Inl (Error ''OpenRouter API key is required'')
          else Inr \<lparr> apiKey = k,
                     model = (case cfg_model c of None \<Rightarrow> ''mistralai/mistral-nemo'' | Some m \<Rightarrow> m),
                     referer = cfg_referer c,
                     appName = cfg_appName c,
                     maxRetries = (case cfg_maxRetries c of None \<Rightarrow> 3 | Some n \<Rightarrow> n),
                     delimiter = (case cfg_delimiter c of None \<Rightarrow> ''###'' | Some d \<Rightarrow> d) \<rparr>)"

subsection \<open>\<^verbatim>\<open>_wrapFormat\<close>\<close>

definition template_text :: "jsval \<Rightarrow> string" where
  \<comment> \<open>\<^verbatim>\<open>`${v}`\<close> for a value that is not an object, whose conversion never raises\<close>
  "template_text v = (case to_string v of Inr s \<Rightarrow> s | Inl e \<Rightarrow> [])"

fun wrapFormat :: "JsonGenerator \<Rightarrow> jsval \<Rightarrow> nat \<Rightarrow> jsval"
  and wrapItems :: "JsonGenerator \<Rightarrow> jsval list \<Rightarrow> nat \<Rightarrow> jsval list"
  and wrapEntries ::
    "JsonGenerator \<Rightarrow> (string \<times> jsval) list \<Rightarrow> nat \<Rightarrow> (string \<times> jsval) list
      \<Rightarrow> (string \<times> jsval) list" where
  "wrapFormat this (JArr items) level = JArr (wrapItems this items (level + 1))"
| "wrapFormat this (JObj entries) level = JObj (wrapEntries this entries level [])"
| "wrapFormat this JUndefined level = JStr (''<'' @ template_text JUndefined @ ''>'')"
| "wrapFormat this JNull level = JStr (''<'' @ template_text JNull @ ''>'')"
| "wrapFormat this (JBool b) level = JStr (''<'' @ template_text (JBool b) @ ''>'')"
| "wrapFormat this (JNum x) level = JStr (''<'' @ template_text (JNum x) @ ''>'')"
| "wrapFormat this (JStr s) level = JStr (''<'' @ template_text (JStr s) @ ''>'')"
| "wrapFormat this (JFun n) level = JStr (''<'' @ template_text (JFun n) @ ''>'')"
| "wrapItems this [] level = []"
| "wrapItems this (item # items) level = wrapFormat this item level # wrapItems this items level"
| "wrapEntries this [] level wrapped = wrapped"
| "wrapEntries this ((key, v) # entries) level wrapped =
     (let wrappedKey = repeat (delimiter this) level @ key @ repeat (delimiter this) level
      in wrapEntries this entries level
           (obj_set wrapped wrappedKey (wrapFormat this v (level + 1))))"

subsection \<open>\<^verbatim>\<open>_validateType\<close>\<close>

definition dq :: string where
  \<comment> \<open>the double quote\<close>
  "dq = [CHR 0x22]"

definition field_error :: "string \<Rightarrow> string \<Rightarrow> js_error" where
  \<comment> \<open>\<^verbatim>\<open>new Error(`Field "${key}" ${what}`)\<close>\<close>
  "field_error key what = Error (''Field '' @ dq @ key @ dq @ '' '' @ what)"

text \<open>
  \<^verbatim>\<open>JSON.parse\<close> is a parameter of the model, \<open>parse\<close>: the text to the parsed value, or the
  error it raises.
\<close>

type_synonym json_parse = "string \<Rightarrow> js_error + jsval"

definition validateType :: "json_parse \<Rightarrow> jsval \<Rightarrow> string \<Rightarrow> string \<Rightarrow> js_error + jsval" where
  "validateType parse v type key =
     (if \<not> startsWith type ''type:'' then Inr v
      else
        (case split type ''type:'' of
           _ # t # _ \<Rightarrow>
             (let typeStr = trim t; kind = toLowerCase typeStr
              in if kind = ''string'' \<or> kind = ''str'' then
                   (case to_string v of Inl e \<Rightarrow> Inl e | Inr s \<Rightarrow> Inr (JStr s))
                 else if kind = ''number'' \<or> kind = ''float'' then
                   (case to_string v of
                      Inl e \<Rightarrow> Inl e
                    | Inr s \<Rightarrow>
                        (let num = parseFloat s
                         in if num = NaN then Inl (field_error key ''must be a number'')
                            else Inr (JNum num)))
                 else if kind = ''integer'' \<or> kind = ''int'' then
                   (case to_string v of
                      Inl e \<Rightarrow> Inl e
                    | Inr s \<Rightarrow>
                        (let int = parseInt s
                         in if int = NaN then Inl (field_error key ''must be an integer'')
                            else Inr (JNum int)))
                 else if kind = ''boolean'' \<or> kind = ''bool'' then
                   (case v of
                      JStr s \<Rightarrow>
                        if toLowerCase s = ''true'' then Inr (JBool True)
                        else if toLowerCase s = ''false'' then Inr (JBool False)
                        else Inl (field_error key ''must be a boolean'')
                    | JBool b \<Rightarrow> Inr v
                    | _ \<Rightarrow> Inl (field_error key ''must be a boolean''))
                 else if kind = ''array'' \<or> kind = ''list'' then
                   (if \<not> isArray v then
                      (case to_string v of
                         Inl e \<Rightarrow> Inl (field_error key ''must be an array'')
                       | Inr s \<Rightarrow>
                           (case parse s of
                              Inl e \<Rightarrow> Inl (field_error key ''must be an array'')
                            | Inr parsed \<Rightarrow>
                                if \<not> isArray parsed
                                then Inl (field_error key ''must be an array'')
                                else Inr parsed))
                    else Inr v)
                 else if startsWith typeStr ''enum['' then
                   (let enumValues = map trim (split (slice_5_m1 typeStr) '','')
                    in if v \<notin> set (map JStr enumValues)
                       then Inl (field_error key (''must be one of: '' @ join '', '' enumValues))
                       else Inr v)
                 else Inr v)
         | _ \<Rightarrow> Inl (TypeError ''Cannot read properties of undefined (reading 'trim')'')))"

subsection \<open>\<^verbatim>\<open>_cleanJsonString\<close>\<close>

definition after_fence :: "string \<Rightarrow> string" where
  \<comment> \<open>what follows a match of \<^verbatim>\<open>```(?:json)?\n?\<close> that starts one code unit before
      \<open>cs\<close>: the two other backticks, then \<^verbatim>\<open>json\<close> and a line feed when they are
      there, are skipped\<close>
  "after_fence cs =
     (let r1 = drop 2 cs;
          r2 = (if startsWith r1 ''json'' then drop 4 r1 else r1)
      in if startsWith r2 [CHR 0x0A] then drop 1 r2 else r2)"

function strip_fences :: "string \<Rightarrow> string" where
  \<comment> \<open>\<^verbatim>\<open>str.replace(/```(?:json)?\n?/g, '')\<close>\<close>
  "strip_fences [] = []"
| "strip_fences (c # cs) =
     (if startsWith (c # cs) [CHR 0x60, CHR 0x60, CHR 0x60]
      then strip_fences (after_fence cs)
      else c # strip_fences cs)"
  by pat_completeness auto
termination
  by (relation "measure length") (auto simp: after_fence_def Let_def)

declare strip_fences.simps(2) [simp del]

definition strip_trailing_backticks :: "string \<Rightarrow> string" where
  \<comment> \<open>\<^verbatim>\<open>str.replace(/`+$/, '')\<close>\<close>
  "strip_trailing_backticks s = rev (dropWhile (\<lambda>c. c = CHR 0x60) (rev s))"

definition cleanJsonString :: "string \<Rightarrow> string" where
  "cleanJsonString str = trim (strip_trailing_backticks (strip_fences str))"

subsection \<open>\<^verbatim>\<open>_validateSchema\<close>\<close>

fun validateSchema :: "json_parse \<Rightarrow> jsval \<Rightarrow> jsval \<Rightarrow> js_error + jsval"
  and validateItems :: "json_parse \<Rightarrow> jsval list \<Rightarrow> jsval \<Rightarrow> js_error + jsval list"
  and validateEntries ::
    "json_parse \<Rightarrow> jsval \<Rightarrow> (string \<times> jsval) list \<Rightarrow> (string \<times> jsval) list
      \<Rightarrow> js_error + jsval" where
  "validateSchema parse data (JStr s) =
     (if startsWith s ''type:'' then validateType parse data s ''field'' else Inr data)"
| "validateSchema parse data (JArr []) =
     (case data of
        JArr items \<Rightarrow>
          (case validateItems parse items JUndefined of Inl e \<Rightarrow> Inl e | Inr r \<Rightarrow> Inr (JArr r))
      | _ \<Rightarrow> Inl (Error ''Expected an array''))"
| "validateSchema parse data (JArr (s0 # ss)) =
     (case data of
        JArr items \<Rightarrow>
          (case validateItems parse items s0 of Inl e \<Rightarrow> Inl e | Inr r \<Rightarrow> Inr (JArr r))
      | _ \<Rightarrow> Inl (Error ''Expected an array''))"
| "validateSchema parse data (JObj entries) =
     (if \<not> is_object data then Inl (Error ''Expected an object'')
      else validateEntries parse data entries [])"
| "validateSchema parse data JUndefined = Inr data"
| "validateSchema parse data JNull = Inr data"
| "validateSchema parse data (JBool b) = Inr data"
| "validateSchema parse data (JNum x) = Inr data"
| "validateSchema parse data (JFun n) = Inr data"
| "validateItems parse [] s0 = Inr []"
| "validateItems parse (item # items) s0 =
     (case validateSchema parse item s0 of
        Inl e \<Rightarrow> Inl e
      | Inr r \<Rightarrow>
          (case validateItems parse items s0 of Inl e \<Rightarrow> Inl e | Inr rs \<Rightarrow> Inr (r # rs)))"
| "validateEntries parse data [] validated = Inr (JObj validated)"
| "validateEntries parse data ((key, schemaValue) # entries) validated =
     (if \<not> has_property key data then Inl (Error (''Missing required field: '' @ key))
      else
        (case validateSchema parse (get_property data key) schemaValue of
           Inl e \<Rightarrow> Inl e
         | Inr r \<Rightarrow> validateEntries parse data entries (obj_set validated key r)))"

subsection \<open>\<^verbatim>\<open>_formatValue\<close> and \<^verbatim>\<open>_createStructuredPrompt\<close>\<close>

fun formatValue :: "jsval \<Rightarrow> js_error + string"
  and formatValues :: "jsval list \<Rightarrow> js_error + string list" where
  "formatValue (JStr s) = Inr (dq @ s @ dq)"
| "formatValue (JArr xs) =
     (case formatValues xs of Inl e \<Rightarrow> Inl e | Inr ss \<Rightarrow> Inr (''['' @ join '', '' ss @ '']''))"
| "formatValue JUndefined = to_string JUndefined"
| "formatValue JNull = to_string JNull"
| "formatValue (JBool b) = to_string (JBool b)"
| "formatValue (JNum x) = to_string (JNum x)"
| "formatValue (JObj kvs) = to_string (JObj kvs)"
| "formatValue (JFun n) = to_string (JFun n)"
| "formatValues [] = Inr []"
| "formatValues (x # xs) =
     (case formatValue x of
        Inl e \<Rightarrow> Inl e
      | Inr s \<Rightarrow> (case formatValues xs of Inl e \<Rightarrow> Inl e | Inr ss \<Rightarrow> Inr (s # ss)))"

definition truthy :: "jsval \<Rightarrow> bool" where
  "truthy v =
     (case v of
        JUndefined \<Rightarrow> False
      | JNull \<Rightarrow> False
      | JBool b \<Rightarrow> b
      | JNum x \<Rightarrow> x \<noteq> NaN \<and> x \<noteq> Dec 0 0
      | JStr s \<Rightarrow> s \<noteq> []
      | _ \<Rightarrow> True)"

definition example :: jsval where
  \<comment> \<open>the default of the parameter \<^verbatim>\<open>example\<close>\<close>
  "example =
     JObj [(''string'', JStr ''example_text''),
           (''integer'', JNum (num_of_int 42)),
           (''float'', JNum (mk_num 425 (- 1))),
           (''boolean'', JBool True),
           (''array'', JArr [JStr ''item1'', JStr ''item2''])]"

definition entries_of :: "jsval \<Rightarrow> (string \<times> jsval) list" where
  \<comment> \<open>\<^verbatim>\<open>Object.entries(v)\<close> for a value other than \<^verbatim>\<open>null\<close> and \<^verbatim>\<open>undefined\<close>\<close>
  "entries_of v =
     (case v of
        JObj kvs \<Rightarrow> kvs
      | JArr xs \<Rightarrow> map (\<lambda>i. (digits_of i, xs ! i)) [0 ..< length xs]
      | JStr s \<Rightarrow> map (\<lambda>i. (digits_of i, JStr [s ! i])) [0 ..< length s]
      | _ \<Rightarrow> [])"

fun formatField :: "string \<Rightarrow> jsval \<Rightarrow> string \<Rightarrow> js_error + string"
  and formatFields :: "(string \<times> jsval) list \<Rightarrow> string \<Rightarrow> js_error + string list" where
  "formatField key (JStr type) path =
     (let currentPath = (if path \<noteq> [] then path @ ''.'' @ key else key)
      in if startsWith type ''type:'' then
           (case split type ''type:'' of
              _ # t # _ \<Rightarrow>
                (let baseType = trim t
                 in if startsWith baseType ''enum['' then
                      (case map trim (split (slice_5_m1 baseType) '','') of
                         [] \<Rightarrow>
                           (case formatValue JUndefined of
                              Inl e \<Rightarrow> Inl e | Inr s \<Rightarrow> Inr (currentPath @ ''='' @ s))
                       | option0 # _ \<Rightarrow>
                           (case formatValue (JStr option0) of
                              Inl e \<Rightarrow> Inl e | Inr s \<Rightarrow> Inr (currentPath @ ''='' @ s)))
                    else
                      (let ex = get_property example (toLowerCase baseType);
                           chosen = (if truthy ex then ex else get_property example ''string'')
                       in case formatValue chosen of
                            Inl e \<Rightarrow> Inl e | Inr s \<Rightarrow> Inr (currentPath @ ''='' @ s)))
            | _ \<Rightarrow> Inl (TypeError ''Cannot read properties of undefined (reading 'trim')''))
         else
           (case formatValue (get_property example ''array'') of
              Inl e \<Rightarrow> Inl e | Inr s \<Rightarrow> Inr (currentPath @ ''='' @ s)))"
| "formatField key (JObj entries) path =
     (let currentPath = (if path \<noteq> [] then path @ ''.'' @ key else key)
      in case formatFields entries currentPath of
           Inl e \<Rightarrow> Inl e | Inr ss \<Rightarrow> Inr (join '', '' ss))"
| "formatField key JNull path = Inl (TypeError ''Cannot convert undefined or null to object'')"
| "formatField key type path =
     (let currentPath = (if path \<noteq> [] then path @ ''.'' @ key else key)
      in case formatValue (get_property example ''array'') of
           Inl e \<Rightarrow> Inl e | Inr s \<Rightarrow> Inr (currentPath @ ''='' @ s))"
| "formatFields [] path = Inr []"
| "formatFields ((k, v) # entries) path =
     (case formatField k v path of
        Inl e \<Rightarrow> Inl e
      | Inr s \<Rightarrow> (case formatFields entries path of Inl e \<Rightarrow> Inl e | Inr ss \<Rightarrow> Inr (s # ss)))"

definition createStructuredPrompt :: "string \<Rightarrow> jsval \<Rightarrow> js_error + string" where
  "createStructuredPrompt userPrompt schema =
     (case formatFields (entries_of schema) [] of
        Inl e \<Rightarrow> Inl e
      | Inr ss \<Rightarrow>
          Inr (userPrompt @ [CHR 0x0A]
               @ ''Return a raw JSON object (no markdown, no code blocks) with exactly these fields and values as a template: ''
               @ join '', '' ss))"

subsection \<open>\<^verbatim>\<open>generate\<close>\<close>

text \<open>
  The outside world. \<open>JSON_parse\<close> and \<open>JSON_stringify\<close> are the two functions of the
  runtime's \<^verbatim>\<open>JSON\<close> object. The provider answers the \<open>n\<close>-th call of \<^verbatim>\<open>fetch\<close> within
  one \<^verbatim>\<open>generate\<close> (counted from 0) as a function of the request: \<open>Inl\<close> when
  \<^verbatim>\<open>fetch\<close> itself rejects, otherwise a response with its \<^verbatim>\<open>ok\<close> flag, its
  \<^verbatim>\<open>statusText\<close> and what \<^verbatim>\<open>response.json()\<close> resolves to or rejects with.
\<close>

record runtime =
  JSON_parse :: json_parse
  JSON_stringify :: "jsval \<Rightarrow> string"

record request =
  url :: string
  headers :: "(string \<times> string) list"
  body_model :: string
  system_content :: string
  user_content :: string

record response =
  ok :: bool
  statusText :: string
  json :: "js_error + jsval"

type_synonym provider = "nat \<Rightarrow> request \<Rightarrow> js_error + response"

text \<open>
  A custom validator maps the validated result to \<open>Inl\<close> when it throws or rejects, and
  otherwise to the truth of the \<^verbatim>\<open>valid\<close> it returns together with the message that
  \<^verbatim>\<open>new Error(error)\<close> gets from its \<^verbatim>\<open>error\<close>.
\<close>

type_synonym validator = "jsval \<Rightarrow> js_error + bool \<times> string"

definition sq :: string where
  \<comment> \<open>the single quote\<close>
  "sq = [CHR 0x27]"

definition get_member :: "jsval \<Rightarrow> string \<Rightarrow> js_error + jsval" where
  \<comment> \<open>\<^verbatim>\<open>v.key\<close> and \<^verbatim>\<open>v[0]\<close> as \<^verbatim>\<open>generate\<close> reads them from a response body: a
      TypeError on \<^verbatim>\<open>undefined\<close> and \<^verbatim>\<open>null\<close>; a string has its code units and its
      length; no other primitive has one of the keys read here.\<close>
  "get_member v key =
     (case v of
        JUndefined \<Rightarrow>
          Inl (TypeError (''Cannot read properties of undefined (reading '' @ sq @ key @ sq @ '')''))
      | JNull \<Rightarrow>
          Inl (TypeError (''Cannot read properties of null (reading '' @ sq @ key @ sq @ '')''))
      | JObj kvs \<Rightarrow> Inr (get_property v key)
      | JArr xs \<Rightarrow> Inr (get_property v key)
      | JStr s \<Rightarrow>
          Inr (if is_array_index key \<and> nat_of_digits key < length s
               then JStr [s ! nat_of_digits key]
               else if key = ''length'' then JNum (num_of_int (int (length s)))
               else JUndefined)
      | _ \<Rightarrow> Inr JUndefined)"

definition make_request :: "JsonGenerator \<Rightarrow> string \<Rightarrow> string option \<Rightarrow> string \<Rightarrow> request" where
  \<comment> \<open>the arguments of \<^verbatim>\<open>fetch\<close>; \<open>lastError\<close> is \<open>None\<close> for \<^verbatim>\<open>null\<close>\<close>
  "make_request this systemMessage lastError structuredPrompt =
     \<lparr> url = ''https://openrouter.ai/api/v1/chat/completions'',
       headers =
         [(''Authorization'', ''Bearer '' @ apiKey this),
          (''Content-Type'', ''application/json'')]
         @ (case referer this of
              None \<Rightarrow> [] | Some r \<Rightarrow> if r = [] then [] else [(''HTTP-Referer'', r)])
         @ (case appName this of
              None \<Rightarrow> [] | Some a \<Rightarrow> if a = [] then [] else [(''X-Title'', a)]),
       body_model = model this,
       system_content =
         systemMessage
         @ (case lastError of
              None \<Rightarrow> []
            | Some e \<Rightarrow> if e = [] then [] else [CHR 0x0A] @ ''Previous error: '' @ e),
       user_content = structuredPrompt \<rparr>"

fun run_validators :: "validator list \<Rightarrow> jsval \<Rightarrow> js_error + jsval" where
  "run_validators [] result = Inr result"
| "run_validators (validator # validators) result =
     (case validator result of
        Inl e \<Rightarrow> Inl e
      | Inr (valid, error) \<Rightarrow>
          if \<not> valid then Inl (Error error) else run_validators validators result)"

definition attempt_body ::
  "runtime \<Rightarrow> jsval \<Rightarrow> validator list \<Rightarrow> js_error + response \<Rightarrow> js_error + jsval" where
  \<comment> \<open>the \<^verbatim>\<open>try\<close> block of one attempt, from the settled \<^verbatim>\<open>fetch\<close> on\<close>
  "attempt_body rt schema customValidators fetched =
     (case fetched of
        Inl e \<Rightarrow> Inl e
      | Inr response \<Rightarrow>
          if \<not> ok response then
            (case json response of
               Inl e \<Rightarrow> Inl e
             | Inr error \<Rightarrow>
                 (case get_member error ''message'' of
                    Inl e \<Rightarrow> Inl e
                  | Inr m \<Rightarrow>
                      (case to_string (if truthy m then m else JStr (statusText response)) of
                         Inl e \<Rightarrow> Inl e
                       | Inr s \<Rightarrow> Inl (Error (''OpenRouter API error: '' @ s)))))
          else
            (case json response of
               Inl e \<Rightarrow> Inl e
             | Inr data \<Rightarrow>
                 (case get_member data ''choices'' of
                    Inl e \<Rightarrow> Inl e
                  | Inr choices \<Rightarrow>
                      (case get_member choices ''0'' of
                         Inl e \<Rightarrow> Inl e
                       | Inr choice \<Rightarrow>
                           (case get_member choice ''message'' of
                              Inl e \<Rightarrow> Inl e
                            | Inr msg \<Rightarrow>
                                (case get_member msg ''content'' of
                                   Inl e \<Rightarrow> Inl e
                                 | Inr content \<Rightarrow>
                                     (case content of
                                        JStr str \<Rightarrow>
                                          (case JSON_parse rt (cleanJsonString str) of
                                             Inl e \<Rightarrow> Inl e
                                           | Inr result \<Rightarrow>
                                               (case validateSchema (JSON_parse rt) result schema of
                                                  Inl e \<Rightarrow> Inl e
                                                | Inr validated \<Rightarrow>
                                                    run_validators customValidators validated))
                                      | JUndefined \<Rightarrow>
                                          Inl (TypeError
                                            ''Cannot read properties of undefined (reading 'replace')'')
                                      | JNull \<Rightarrow>
                                          Inl (TypeError
                                            ''Cannot read properties of null (reading 'replace')'')
                                      | _ \<Rightarrow> Inl (TypeError ''str.replace is not a function''))))))))"

function retry_loop ::
  "JsonGenerator \<Rightarrow> runtime \<Rightarrow> provider \<Rightarrow> jsval \<Rightarrow> validator list \<Rightarrow> string \<Rightarrow> string
    \<Rightarrow> nat \<Rightarrow> string option \<Rightarrow> request list \<Rightarrow> (js_error + jsval) \<times> request list" where
  "retry_loop this rt fetch schema customValidators systemMessage structuredPrompt
      attempt lastError sent =
     (if int attempt < maxRetries this then
        (let req = make_request this systemMessage lastError structuredPrompt
         in case attempt_body rt schema customValidators (fetch attempt req) of
              Inr result \<Rightarrow> (Inr result, sent @ [req])
            | Inl error \<Rightarrow>
                if int attempt = maxRetries this - 1 then (Inl error, sent @ [req])
                else retry_loop this rt fetch schema customValidators systemMessage
                       structuredPrompt (attempt + 1) (Some (message error)) (sent @ [req]))
      else (Inr JUndefined, sent))"
  by pat_completeness auto
termination
  by (relation "measure (\<lambda>(this, rt, fetch, schema, cv, fsp, sp, attempt, le, sent).
        nat (maxRetries this - int attempt))") auto

declare retry_loop.simps [simp del]

definition baseSystemPrompt :: "runtime \<Rightarrow> jsval \<Rightarrow> string" where
  "baseSystemPrompt rt schema =
     ''You are a JSON generator. Generate a raw JSON object (no markdown, no code blocks) that conforms to this schema: ''
     @ JSON_stringify rt schema @ ''. '' @ [CHR 0x0A]
     @ ''Important:'' @ [CHR 0x0A]
     @ ''- Return ONLY the raw JSON object, no markdown formatting or code blocks'' @ [CHR 0x0A]
     @ ''- Ensure all fields are present and match their types exactly'' @ [CHR 0x0A]
     @ ''- Do not include any explanation or additional text'' @ [CHR 0x0A]
     @ ''- Use the field names and types exactly as specified''"

definition finalSystemPrompt :: "runtime \<Rightarrow> jsval \<Rightarrow> string option \<Rightarrow> string" where
  \<comment> \<open>\<^verbatim>\<open>systemPrompt || baseSystemPrompt\<close>\<close>
  "finalSystemPrompt rt schema systemPrompt =
     (case systemPrompt of
        None \<Rightarrow> baseSystemPrompt rt schema
      | Some p \<Rightarrow> if p = [] then baseSystemPrompt rt schema else p)"

definition makeRequest_member :: "(string \<Rightarrow> string \<Rightarrow> js_error + string) option" where
  \<comment> \<open>the value of \<^verbatim>\<open>this._makeRequest\<close>. The class declares the members
      \<^verbatim>\<open>constructor\<close>, \<^verbatim>\<open>_wrapFormat\<close>, \<^verbatim>\<open>_validateType\<close>, \<^verbatim>\<open>_cleanJsonString\<close>,
      \<^verbatim>\<open>_formatValue\<close>, \<^verbatim>\<open>_createStructuredPrompt\<close>, \<^verbatim>\<open>generate\<close>,
      \<^verbatim>\<open>_validateSchema\<close> and \<^verbatim>\<open>generateBatch\<close>, and its constructor assigns the six
      fields of the configuration: no member has this name, the read gives
      \<^verbatim>\<open>undefined\<close>.\<close>
  "makeRequest_member = None"

definition no_schema_path ::
  "(string \<Rightarrow> string \<Rightarrow> js_error + string) option \<Rightarrow> runtime \<Rightarrow> string \<Rightarrow> string option
    \<Rightarrow> js_error + jsval" where
  \<comment> \<open>the branch of \<^verbatim>\<open>generate\<close> for an empty schema, for a given value of
      \<^verbatim>\<open>this._makeRequest\<close>\<close>
  "no_schema_path makeRequest rt prompt systemPrompt =
     (case makeRequest of
        None \<Rightarrow> Inl (TypeError ''this._makeRequest is not a function'')
      | Some f \<Rightarrow>
          (case f prompt
                  (case systemPrompt of
                     None \<Rightarrow> ''Generate a JSON object based on the prompt. Return only the raw JSON.''
                   | Some p \<Rightarrow>
                       if p = []
                       then ''Generate a JSON object based on the prompt. Return only the raw JSON.''
                       else p) of
             Inl e \<Rightarrow> Inl e
           | Inr response \<Rightarrow> JSON_parse rt response))"

text \<open>
  \<open>generate\<close> returns what the promise settles to, and the requests sent to the provider
  with \<^verbatim>\<open>fetch\<close>, in order. The parameter \<open>schema0\<close> is \<open>JUndefined\<close> when the caller
  leaves the schema out, and \<open>systemPrompt\<close> is \<open>None\<close> when that is left out.
\<close>

definition generate ::
  "JsonGenerator \<Rightarrow> runtime \<Rightarrow> provider \<Rightarrow> string \<Rightarrow> jsval \<Rightarrow> string option \<Rightarrow> validator list
    \<Rightarrow> (js_error + jsval) \<times> request list" where
  "generate this rt fetch prompt schema0 systemPrompt customValidators =
     (let schema = (if schema0 = JUndefined then JObj [] else schema0)
      in if schema = JNull then (Inl (TypeError ''Cannot convert undefined or null to object''), [])
         else if entries_of schema = [] then
           (no_schema_path makeRequest_member rt prompt systemPrompt, [])
         else
           (let wrappedSchema = wrapFormat this schema 1
            in case createStructuredPrompt prompt schema of
                 Inl e \<Rightarrow> (Inl e, [])
               | Inr structuredPrompt \<Rightarrow>
                   retry_loop this rt fetch schema customValidators
                     (finalSystemPrompt rt schema systemPrompt) structuredPrompt 0 None []))"

section \<open>Notions used in the statements\<close>

text \<open>
  A schema as the data model describes it: a type annotation, an object of schemas, or an
  array of one schema.
\<close>

fun is_schema :: "jsval \<Rightarrow> bool"
  and are_schemas :: "(string \<times> jsval) list \<Rightarrow> bool" where
  "is_schema (JStr annotation) = True"
| "is_schema (JObj entries) = are_schemas entries"
| "is_schema (JArr items) = (case items of [item] \<Rightarrow> is_schema item | _ \<Rightarrow> False)"
| "is_schema JUndefined = False"
| "is_schema JNull = False"
| "is_schema (JBool b) = False"
| "is_schema (JNum x) = False"
| "is_schema (JFun n) = False"
| "are_schemas [] = True"
| "are_schemas ((key, v) # entries) = (is_schema v \<and> are_schemas entries)"

definition contains :: "string \<Rightarrow> string \<Rightarrow> bool" where
  \<comment> \<open>\<open>part\<close> occurs in \<open>text\<close>\<close>
  "contains text part \<longleftrightarrow> (\<exists>before after. text = before @ part @ after)"

text \<open>
  Sample values for the closed instances of the theorems below: a generator as the
  constructor builds it from a key alone, a schema, a runtime whose \<^verbatim>\<open>JSON.parse\<close> is
  restricted to the one text the samples use (the theorems hold for every runtime), and
  three providers. \<open>flaky_provider\<close> rejects the first call, answers the second with a
  status that is not ok and the third with a fenced JSON text.
\<close>

definition sample_generator :: JsonGenerator where
  "sample_generator =
     \<lparr> apiKey = ''test-key'', model = ''mistralai/mistral-nemo'', referer = None,
       appName = None, maxRetries = 3, delimiter = ''###'' \<rparr>"

definition sample_schema :: jsval where
  "sample_schema = JObj [(''name'', JStr ''type:string''), (''age'', JStr ''type:integer'')]"

definition sample_text :: string where
  "sample_text =
     ''{'' @ dq @ ''name'' @ dq @ '':'' @ dq @ ''John'' @ dq @ '','' @ dq @ ''age'' @ dq @ '':''
       @ dq @ ''30'' @ dq @ ''}''"

definition sample_runtime :: runtime where
  "sample_runtime =
     \<lparr> JSON_parse =
         (\<lambda>text. if text = sample_text
                then Inr (JObj [(''name'', JStr ''John''), (''age'', JStr ''30'')])
                else Inl (SyntaxError ''Unexpected token'')),
       JSON_stringify = (\<lambda>v. ''{}'') \<rparr>"

definition fenced :: "string \<Rightarrow> string" where
  "fenced text =
     [CHR 0x60, CHR 0x60, CHR 0x60] @ ''json'' @ [CHR 0x0A] @ text @ [CHR 0x0A]
       @ [CHR 0x60, CHR 0x60, CHR 0x60]"

definition completion :: "string \<Rightarrow> response" where
  \<comment> \<open>a response that is ok, with \<open>content\<close> as its first choice\<close>
  "completion content =
     \<lparr> ok = True, statusText = ''OK'',
       json = Inr (JObj [(''choices'',
                JArr [JObj [(''message'', JObj [(''content'', JStr content)])]])]) \<rparr>"

definition flaky_provider :: provider where
  "flaky_provider n req =
     (if n = 0 then Inl (TypeError ''fetch failed'')
      else if n = 1 then
        Inr \<lparr> ok = False, statusText = ''Too Many Requests'',
              json = Inr (JObj [(''message'', JStr ''rate limited'')]) \<rparr>
      else Inr (completion (fenced sample_text)))"

definition failing_provider :: provider where
  "failing_provider n req = Inl (TypeError ''fetch failed'')"

definition code_fence :: string where
  \<comment> \<open>three backticks\<close>
  "code_fence = [CHR 0x60, CHR 0x60, CHR 0x60]"

definition is_clean :: "string \<Rightarrow> bool" where
  \<comment> \<open>no code fence, no white space at either end, no backtick at the end\<close>
  "is_clean text \<longleftrightarrow>
     \<not> contains text code_fence
     \<and> (text = [] \<or> (\<not> is_ws (hd text) \<and> \<not> is_ws (last text) \<and> last text \<noteq> CHR 0x60))"














section \<open>Facts about the runtime's functions and the prompt\<close>

lemma split_at_not_Nil: "split_at sep cur s \<noteq> []"
  by (induction sep cur s rule: split_at.induct) auto

lemma split_startsWith:
  assumes "startsWith s sep" "sep \<noteq> []"
  shows "\<exists>t rest. split s sep = [] # t # rest"
proof -
  from assms obtain c cs where s: "s = c # cs"
    by (cases s) (auto simp: startsWith_def)
  obtain t rest where "split_at sep [] (drop (length sep - 1) cs) = t # rest"
    using split_at_not_Nil by (meson list.exhaust)
  with assms s show ?thesis by (simp add: split_def)
qed

lemma formatValue_example:
  "\<exists>s. formatValue (if truthy (get_property example k) then get_property example k
                      else get_property example ''string'') = Inr s"
  by (auto simp: get_property_def example_def inherited_def truthy_def)

lemma formatValue_example_array:
  "formatValue (get_property example ''array'')
     = Inr (''['' @ dq @ ''item1'' @ dq @ '', '' @ dq @ ''item2'' @ dq @ '']'')"
  by (simp add: get_property_def example_def)

lemma formatField_annotation: "\<exists>s. formatField key (JStr type) path = Inr s"
proof (cases "startsWith type ''type:''")
  case True
  then obtain t rest where sp: "split type ''type:'' = [] # t # rest"
    using split_startsWith by fastforce
  obtain s1 where s1: "formatValue (if truthy (get_property example (toLowerCase (trim t)))
         then get_property example (toLowerCase (trim t))
         else get_property example ''string'') = Inr s1"
    using formatValue_example by blast
  show ?thesis
    using True sp s1 by (simp add: Let_def split: list.splits)
next
  case False
  then show ?thesis by (simp add: Let_def formatValue_example_array)
qed

lemma formatField_schema:
  "is_schema v \<Longrightarrow> \<exists>s. formatField key v path = Inr s"
  "are_schemas entries \<Longrightarrow> \<exists>ss. formatFields entries path = Inr ss"
proof (induction key v path and entries path rule: formatField_formatFields.induct)
  case (1 key type path)
  show ?case by (rule formatField_annotation)
next
  case (2 key entries path)
  then show ?case by (cases "path = []") (auto simp: Let_def)
qed (auto simp: Let_def formatValue_example_array split: sum.splits list.splits)

lemma are_schemas_chars: "are_schemas (map (\<lambda>i. (f i, JStr (g i))) xs)"
  by (induction xs) auto

lemma are_schemas_entries_of: "is_schema schema \<Longrightarrow> are_schemas (entries_of schema)"
  by (cases schema) (auto simp: entries_of_def are_schemas_chars split: list.splits)

lemma createStructuredPrompt_schema:
  assumes "is_schema schema"
  shows "\<exists>sp. createStructuredPrompt prompt schema = Inr sp"
proof -
  obtain ss where "formatFields (entries_of schema) [] = Inr ss"
    using formatField_schema(2) [OF are_schemas_entries_of [OF assms]] by blast
  then show ?thesis by (simp add: createStructuredPrompt_def)
qed

lemma retry_loop_exhausted:
  "maxRetries this \<le> int attempt \<Longrightarrow>
   retry_loop this rt fetch schema cvs sys up attempt lastError sent = (Inr JUndefined, sent)"
  by (simp add: retry_loop.simps)

lemma constructor_maxRetries:
  "constructor c = Inr this \<Longrightarrow> cfg_maxRetries c = Some n \<Longrightarrow> maxRetries this = n"
  by (auto simp: constructor_def split: option.splits if_splits)

section \<open>The retry loop\<close>

lemma retry_loop_success:
  assumes "int attempt < maxRetries this"
    and "attempt_body rt schema cvs (fetch attempt (make_request this sys lastError up)) = Inr r"
  shows "retry_loop this rt fetch schema cvs sys up attempt lastError sent
           = (Inr r, sent @ [make_request this sys lastError up])"
  using assms by (subst retry_loop.simps) (simp add: Let_def)

lemma retry_loop_failure:
  assumes "int attempt < maxRetries this - 1"
    and "attempt_body rt schema cvs (fetch attempt (make_request this sys lastError up)) = Inl e"
  shows "retry_loop this rt fetch schema cvs sys up attempt lastError sent
           = retry_loop this rt fetch schema cvs sys up (attempt + 1) (Some (message e))
               (sent @ [make_request this sys lastError up])"
  using assms by (subst retry_loop.simps) (simp add: Let_def)

lemma retry_loop_last_failure:
  assumes "int attempt = maxRetries this - 1"
    and "attempt_body rt schema cvs (fetch attempt (make_request this sys lastError up)) = Inl e"
  shows "retry_loop this rt fetch schema cvs sys up attempt lastError sent
           = (Inl e, sent @ [make_request this sys lastError up])"
  using assms by (subst retry_loop.simps) (simp add: Let_def)

lemma retry_loop_all_fail:
  assumes "maxRetries this = int n" and "attempt < n"
    and "\<And>i. attempt \<le> i \<Longrightarrow> i < n \<Longrightarrow>
           attempt_body rt schema cvs
             (fetch i (make_request this sys
                 (if i = attempt then lastError else Some (message (errs (i - 1)))) up))
             = Inl (errs i)"
  shows "fst (retry_loop this rt fetch schema cvs sys up attempt lastError sent)
           = Inl (errs (n - 1))"
  using assms
proof (induction "n - attempt" arbitrary: attempt lastError sent)
  case 0
  then show ?case by simp
next
  case (Suc k)
  have here: "attempt_body rt schema cvs (fetch attempt (make_request this sys lastError up))
                = Inl (errs attempt)"
    using Suc.prems(3) [of attempt] Suc.prems(2) by simp
  show ?case
  proof (cases "attempt = n - 1")
    case True
    then have "int attempt = maxRetries this - 1"
      using Suc.prems(1,2) by simp
    from retry_loop_last_failure [where fetch = fetch, OF this here] True show ?thesis by simp
  next
    case False
    then have lt: "attempt + 1 < n" using Suc.prems(2) by simp
    then have "int attempt < maxRetries this - 1" using Suc.prems(1) by simp
    note step = retry_loop_failure [where fetch = fetch, OF this here]
    have k: "k = n - (attempt + 1)" using Suc.hyps(2) by simp
    have "fst (retry_loop this rt fetch schema cvs sys up (attempt + 1)
                 (Some (message (errs attempt))) (sent @ [make_request this sys lastError up]))
            = Inl (errs (n - 1))"
    proof (rule Suc.hyps(1) [OF k Suc.prems(1) lt])
      fix i assume i: "attempt + 1 \<le> i" "i < n"
      then have "attempt \<le> i" "i \<noteq> attempt" by simp_all
      with Suc.prems(3) [of i] i
      show "attempt_body rt schema cvs
              (fetch i (make_request this sys
                 (if i = attempt + 1 then Some (message (errs attempt))
                  else Some (message (errs (i - 1)))) up)) = Inl (errs i)"
        by (cases "i = attempt + 1") auto
    qed
    with step show ?thesis by simp
  qed
qed

lemma system_content_contains_error:
  "contains (system_content (make_request this sys (Some e) up)) e"
proof (cases "e = []")
  case True
  then show ?thesis
    unfolding contains_def by (intro exI [of _ "[]"] exI [of _ "sys"]) (simp add: make_request_def)
next
  case False
  then show ?thesis
    unfolding contains_def
    by (intro exI [of _ "sys @ [CHR 0x0A] @ ''Previous error: ''"] exI [of _ "[]"])
      (simp add: make_request_def)
qed

lemma generate_schema:
  assumes "schema \<noteq> JUndefined" "schema \<noteq> JNull" "entries_of schema \<noteq> []"
    and "createStructuredPrompt prompt schema = Inr up"
  shows "generate this rt fetch prompt schema systemPrompt cvs
           = retry_loop this rt fetch schema cvs (finalSystemPrompt rt schema systemPrompt) up
               0 None []"
  using assms by (simp add: generate_def Let_def)

section \<open>The sanitizer\<close>

lemma contains_Cons:
  "contains (c # t) p \<longleftrightarrow> startsWith (c # t) p \<or> contains t p"
proof
  assume "contains (c # t) p"
  then obtain b a where ba: "c # t = b @ p @ a" by (auto simp: contains_def)
  show "startsWith (c # t) p \<or> contains t p"
  proof (cases b)
    case Nil
    with ba show ?thesis by (simp add: startsWith_def)
  next
    case (Cons b0 bs)
    with ba have "t = bs @ p @ a" by simp
    then show ?thesis by (auto simp: contains_def)
  qed
next
  assume "startsWith (c # t) p \<or> contains t p"
  then show "contains (c # t) p"
  proof
    assume "startsWith (c # t) p"
    then have "c # t = [] @ p @ drop (length p) (c # t)"
      by (simp add: startsWith_def) (metis append_take_drop_id)
    then show ?thesis unfolding contains_def by blast
  next
    assume "contains t p"
    then obtain b a where "t = b @ p @ a" by (auto simp: contains_def)
    then have "c # t = (c # b) @ p @ a" by simp
    then show ?thesis unfolding contains_def by blast
  qed
qed

lemma contains_Nil: "p \<noteq> [] \<Longrightarrow> \<not> contains [] p"
  by (simp add: contains_def)

lemma strip_fences_no_fence:
  "\<not> contains s code_fence \<Longrightarrow> strip_fences s = s"
proof (induction s)
  case Nil
  then show ?case by simp
next
  case (Cons c cs)
  then have "\<not> startsWith (c # cs) code_fence" "\<not> contains cs code_fence"
    by (simp_all add: contains_Cons)
  with Cons.IH show ?case by (simp add: code_fence_def strip_fences.simps)
qed

lemma strip_trailing_backticks_id:
  "s = [] \<or> last s \<noteq> CHR 0x60 \<Longrightarrow> strip_trailing_backticks s = s"
  by (cases s rule: rev_cases) (auto simp: strip_trailing_backticks_def)

lemma dropWhile_hd_id: "s = [] \<or> \<not> P (hd s) \<Longrightarrow> dropWhile P s = s"
  by (cases s) auto

lemma dropWhile_last_id: "s = [] \<or> \<not> P (last s) \<Longrightarrow> rev (dropWhile P (rev s)) = s"
  by (cases s rule: rev_cases) auto

lemma trim_id:
  "s = [] \<or> (\<not> is_ws (hd s) \<and> \<not> is_ws (last s)) \<Longrightarrow> trim s = s"
  unfolding trim_def by (subst dropWhile_hd_id, blast, rule dropWhile_last_id, blast)

lemma cleanJsonString_clean: "is_clean text \<Longrightarrow> cleanJsonString text = text"
  by (auto simp: is_clean_def cleanJsonString_def strip_fences_no_fence
      strip_trailing_backticks_id trim_id)


lemma startsWith_iff: "startsWith s p \<longleftrightarrow> (\<exists>r. s = p @ r)"
  unfolding startsWith_def by (metis append_eq_conv_conj append_take_drop_id)

lemma starts_fence_iff:
  "startsWith s code_fence \<longleftrightarrow> (\<exists>r. s = CHR 0x60 # CHR 0x60 # CHR 0x60 # r)"
  by (simp add: startsWith_iff code_fence_def)

lemma strip_fences_plain:
  "\<not> startsWith (c # cs) code_fence \<Longrightarrow> strip_fences (c # cs) = c # strip_fences cs"
  by (simp add: code_fence_def strip_fences.simps)

lemma length_after_fence: "length (after_fence cs) \<le> length cs"
  by (simp add: after_fence_def Let_def)

lemma strip_fences_skip:
  assumes "startsWith (c # cs) code_fence"
  shows "\<exists>r. length r < length (c # cs) \<and> strip_fences (c # cs) = strip_fences r"
proof (intro exI conjI)
  show "length (after_fence cs) < length (c # cs)"
    using length_after_fence [of cs] by simp
  show "strip_fences (c # cs) = strip_fences (after_fence cs)"
    using assms by (simp add: code_fence_def strip_fences.simps)
qed

lemma strip_fences_head:
  "\<not> startsWith (strip_fences s) code_fence"
proof (induction s rule: length_induct)
  case (1 s)
  show ?case
  proof (cases s)
    case Nil
    then show ?thesis by (simp add: starts_fence_iff)
  next
    case (Cons c cs)
    show ?thesis
    proof (cases "startsWith (c # cs) code_fence")
      case True
      from strip_fences_skip [OF this] obtain r
        where "length r < length s" "strip_fences s = strip_fences r"
        using Cons by auto
      with 1 show ?thesis by simp
    next
      case False
      show ?thesis
      proof
        assume "startsWith (strip_fences s) code_fence"
        with Cons False have st: "startsWith (c # strip_fences cs) code_fence"
          by (simp add: strip_fences_plain)
        then obtain r where r: "c = CHR 0x60" "strip_fences cs = CHR 0x60 # CHR 0x60 # r"
          by (auto simp: starts_fence_iff)
        then obtain d ds where cs: "cs = d # ds" by (cases cs) auto
        have nf1: "\<not> startsWith cs code_fence"
          using False r(1) by (auto simp: starts_fence_iff)
        with cs r have d: "d = CHR 0x60" "strip_fences ds = CHR 0x60 # r"
          by (simp_all add: strip_fences_plain)
        then obtain e es where ds: "ds = e # es" by (cases ds) auto
        have nf2: "\<not> startsWith ds code_fence"
          using False r(1) cs d(1) by (auto simp: starts_fence_iff)
        with ds d have "e = CHR 0x60" by (simp add: strip_fences_plain)
        with False r(1) cs d(1) ds show False by (simp add: starts_fence_iff)
      qed
    qed
  qed
qed

lemma strip_fences_fence_free: "\<not> contains (strip_fences s) code_fence"
proof (induction s rule: length_induct)
  case (1 s)
  show ?case
  proof (cases s)
    case Nil
    then show ?thesis by (simp add: contains_Nil code_fence_def)
  next
    case (Cons c cs)
    show ?thesis
    proof (cases "startsWith (c # cs) code_fence")
      case True
      from strip_fences_skip [OF this] obtain r
        where "length r < length s" "strip_fences s = strip_fences r"
        using Cons by auto
      with 1 show ?thesis by simp
    next
      case False
      have "\<not> contains (strip_fences cs) code_fence" using 1 Cons by simp
      moreover have "\<not> startsWith (strip_fences (c # cs)) code_fence"
        by (rule strip_fences_head)
      ultimately show ?thesis
        using False Cons by (simp add: strip_fences_plain contains_Cons)
    qed
  qed
qed

lemma contains_dropWhile: "contains (dropWhile P s) p \<Longrightarrow> contains s p"
proof -
  assume "contains (dropWhile P s) p"
  then obtain b a where "dropWhile P s = b @ p @ a" by (auto simp: contains_def)
  then have "s = (takeWhile P s @ b) @ p @ a"
    by (metis append.assoc takeWhile_dropWhile_id)
  then show ?thesis unfolding contains_def by blast
qed

lemma contains_rev_imp:
  assumes "contains s p"
  shows "contains (rev s) (rev p)"
proof -
  from assms obtain b a where "s = b @ p @ a" by (auto simp: contains_def)
  then have "rev s = rev a @ rev p @ rev b" by simp
  then show ?thesis unfolding contains_def by blast
qed

lemma contains_rev: "contains (rev s) (rev p) \<longleftrightarrow> contains s p"
proof
  assume "contains (rev s) (rev p)"
  from contains_rev_imp [OF this] show "contains s p" by simp
next
  assume "contains s p"
  then show "contains (rev s) (rev p)" by (rule contains_rev_imp)
qed

lemma contains_dropWhile_end:
  assumes "contains (rev (dropWhile P (rev s))) p"
  shows "contains s p"
proof -
  from assms have "contains (rev (rev (dropWhile P (rev s)))) (rev p)"
    by (simp only: contains_rev)
  then have "contains (dropWhile P (rev s)) (rev p)" by simp
  then have "contains (rev s) (rev p)" by (rule contains_dropWhile)
  then show ?thesis by (simp only: contains_rev)
qed

lemma cleanJsonString_fence_free: "\<not> contains (cleanJsonString s) code_fence"
proof
  assume "contains (cleanJsonString s) code_fence"
  then have "contains (rev (dropWhile is_ws (rev (dropWhile is_ws
      (strip_trailing_backticks (strip_fences s)))))) code_fence"
    by (simp add: cleanJsonString_def trim_def)
  then have "contains (dropWhile is_ws (strip_trailing_backticks (strip_fences s))) code_fence"
    by (rule contains_dropWhile_end)
  then have "contains (strip_trailing_backticks (strip_fences s)) code_fence"
    by (rule contains_dropWhile)
  then have "contains (strip_fences s) code_fence"
    unfolding strip_trailing_backticks_def by (rule contains_dropWhile_end)
  then show False using strip_fences_fence_free by blast
qed

lemma trim_ends: "trim s = [] \<or> (\<not> is_ws (hd (trim s)) \<and> \<not> is_ws (last (trim s)))"
proof (cases "trim s = []")
  case True
  then show ?thesis by simp
next
  case False
  define v where "v = dropWhile is_ws s"
  define w where "w = dropWhile is_ws (rev v)"
  have t: "trim s = rev w" by (simp add: trim_def v_def w_def)
  with False have w: "w \<noteq> []" by simp
  then have lastok: "\<not> is_ws (hd w)" unfolding w_def by (rule hd_dropWhile)
  have "rev v = takeWhile is_ws (rev v) @ w" by (simp add: w_def)
  then have v: "v = rev w @ rev (takeWhile is_ws (rev v))"
    by (metis rev_append rev_rev_ident)
  with w have vne: "v \<noteq> []" by auto
  then have "\<not> is_ws (hd v)" unfolding v_def by (rule hd_dropWhile)
  moreover have "hd v = hd (rev w)" using v w by (metis hd_append2 rev_is_Nil_conv)
  ultimately have "\<not> is_ws (hd (rev w))" by simp
  moreover have "last (rev w) = hd w" using w by (simp add: last_rev)
  ultimately show ?thesis using t lastok by simp
qed

lemma cleanJsonString_again:
  assumes "cleanJsonString s = [] \<or> last (cleanJsonString s) \<noteq> CHR 0x60"
  shows "cleanJsonString (cleanJsonString s) = cleanJsonString s"
proof (rule cleanJsonString_clean)
  have "cleanJsonString s = trim (strip_trailing_backticks (strip_fences s))"
    by (simp add: cleanJsonString_def)
  with trim_ends [of "strip_trailing_backticks (strip_fences s)"] assms
    cleanJsonString_fence_free [of s]
  show "is_clean (cleanJsonString s)" unfolding is_clean_def by auto
qed

lemma strip_fences_prefix:
  assumes "\<not> contains pre code_fence" "pre = [] \<or> last pre \<noteq> CHR 0x60"
  shows "strip_fences (pre @ rest) = pre @ strip_fences rest"
  using assms
proof (induction pre)
  case Nil
  then show ?case by simp
next
  case (Cons c p)
  have nf: "\<not> startsWith (c # p) code_fence" "\<not> contains p code_fence"
    using Cons.prems(1) by (simp_all add: contains_Cons)
  have lst: "last (c # p) \<noteq> CHR 0x60" using Cons.prems(2) by simp
  have "\<not> startsWith (c # p @ rest) code_fence"
  proof
    assume "startsWith (c # p @ rest) code_fence"
    then obtain r where r: "c # p @ rest = CHR 0x60 # CHR 0x60 # CHR 0x60 # r"
      by (auto simp: starts_fence_iff)
    show False
    proof (cases p)
      case Nil
      with r lst show False by simp
    next
      case p1: (Cons d p')
      show False
      proof (cases p')
        case Nil
        with r lst p1 show False by simp
      next
        case p2: (Cons e p'')
        with r p1 have "c # p = CHR 0x60 # CHR 0x60 # CHR 0x60 # p''" by simp
        with nf(1) show False by (simp add: starts_fence_iff)
      qed
    qed
  qed
  then have "strip_fences ((c # p) @ rest) = c # strip_fences (p @ rest)"
    by (simp add: strip_fences_plain)
  moreover have "strip_fences (p @ rest) = p @ strip_fences rest"
    using nf(2) lst by (intro Cons.IH) (auto split: if_splits)
  ultimately show ?case by simp
qed

lemma strip_fences_fence:
  assumes "tag = ''json'' \<or> (tag = [] \<and> \<not> startsWith (nl @ rest) ''json'')"
    and "nl = [CHR 0x0A] \<or> (nl = [] \<and> \<not> startsWith rest [CHR 0x0A])"
  shows "strip_fences (code_fence @ tag @ nl @ rest) = strip_fences rest"
proof -
  have "after_fence ([CHR 0x60, CHR 0x60] @ tag @ nl @ rest) = rest"
    using assms by (auto simp: after_fence_def Let_def startsWith_def)
  then show ?thesis by (simp add: code_fence_def strip_fences.simps startsWith_def)
qed

lemma cleanJsonString_fence:
  assumes "\<not> contains pre code_fence" "pre = [] \<or> last pre \<noteq> CHR 0x60"
    and "tag = ''json'' \<or> (tag = [] \<and> \<not> startsWith (nl @ rest) ''json'')"
    and "nl = [CHR 0x0A] \<or> (nl = [] \<and> \<not> startsWith rest [CHR 0x0A])"
  shows "cleanJsonString (pre @ code_fence @ tag @ nl @ rest) = cleanJsonString (pre @ rest)"
  unfolding cleanJsonString_def
  by (simp only: strip_fences_prefix [OF assms(1,2)] strip_fences_fence [OF assms(3,4)])

lemma strip_trailing_backticks_run:
  assumes "body = [] \<or> last body \<noteq> CHR 0x60"
  shows "strip_trailing_backticks (body @ replicate n (CHR 0x60)) = body"
proof -
  have "dropWhile (\<lambda>c. c = CHR 0x60) (replicate n (CHR 0x60) @ rev body)
          = dropWhile (\<lambda>c. c = CHR 0x60) (rev body)"
    by (induction n) simp_all
  also have "\<dots> = rev body"
    using assms by (cases body rule: rev_cases) auto
  finally show ?thesis by (simp add: strip_trailing_backticks_def)
qed

lemma dropWhile_all_append: "\<forall>x\<in>set xs. P x \<Longrightarrow> dropWhile P (xs @ ys) = dropWhile P ys"
  by (induction xs) auto

lemma trim_core:
  assumes "list_all is_ws ws1" "list_all is_ws ws2"
    and "core = [] \<or> (\<not> is_ws (hd core) \<and> \<not> is_ws (last core))"
  shows "trim (ws1 @ core @ ws2) = core"
proof (cases "core = []")
  case True
  have "dropWhile is_ws (ws1 @ ws2) = []"
    using assms(1,2) unfolding dropWhile_eq_Nil_conv by (auto simp: list_all_iff)
  then have "trim (ws1 @ ws2) = []" unfolding trim_def by (simp only: rev.simps dropWhile.simps)
  with True show ?thesis by simp
next
  case False
  with assms(3) have c: "\<not> is_ws (hd core)" "\<not> is_ws (last core)" by simp_all
  have "dropWhile is_ws (ws1 @ core @ ws2) = dropWhile is_ws (core @ ws2)"
    using assms(1) by (intro dropWhile_all_append) (simp add: list_all_iff)
  also have "\<dots> = core @ ws2" using False c(1) by (cases core) simp_all
  finally have 1: "dropWhile is_ws (ws1 @ core @ ws2) = core @ ws2" .
  have "dropWhile is_ws (rev ws2 @ rev core) = dropWhile is_ws (rev core)"
    using assms(2) by (intro dropWhile_all_append) (simp add: list_all_iff)
  also have "\<dots> = rev core" using False c(2) by (cases core rule: rev_cases) simp_all
  finally have 2: "dropWhile is_ws (rev ws2 @ rev core) = rev core" .
  show ?thesis by (simp add: trim_def 1 2)
qed

lemma cleanJsonString_stages:
  assumes "\<not> contains (ws1 @ core @ ws2 @ replicate n (CHR 0x60)) code_fence"
    and "list_all is_ws ws1" "list_all is_ws ws2"
    and "core = [] \<or> (\<not> is_ws (hd core) \<and> \<not> is_ws (last core))"
    and "ws2 = [] \<longrightarrow> core = [] \<or> last core \<noteq> CHR 0x60"
  shows "cleanJsonString (ws1 @ core @ ws2 @ replicate n (CHR 0x60)) = core"
proof -
  have ws: "\<not> is_ws (CHR 0x60)" by (simp add: is_ws_def)
  have body: "ws1 @ core @ ws2 = [] \<or> last (ws1 @ core @ ws2) \<noteq> CHR 0x60"
  proof (cases "ws2 = []")
    case True
    show ?thesis
    proof (cases "core = []")
      case c: True
      with True assms(2) ws show ?thesis
        by (cases ws1 rule: rev_cases) (auto simp: list_all_iff)
    next
      case False
      with True assms(5) show ?thesis by simp
    qed
  next
    case False
    with assms(3) ws show ?thesis
      by (cases ws2 rule: rev_cases) (auto simp: list_all_iff)
  qed
  have "strip_fences (ws1 @ core @ ws2 @ replicate n (CHR 0x60))
          = (ws1 @ core @ ws2) @ replicate n (CHR 0x60)"
    using assms(1) by (simp add: strip_fences_no_fence)
  then show ?thesis
    unfolding cleanJsonString_def
    by (simp only: strip_trailing_backticks_run [OF body] trim_core [OF assms(2,3,4)])
qed

lemma length_trim: "length (trim s) \<le> length s"
proof -
  have "length (dropWhile is_ws (rev (dropWhile is_ws s))) \<le> length (rev (dropWhile is_ws s))"
    by (rule length_dropWhile_le)
  also have "\<dots> \<le> length s" by (simp add: length_dropWhile_le)
  finally show ?thesis by (simp add: trim_def)
qed

lemma cleanJsonString_again_iff:
  "cleanJsonString (cleanJsonString s) = cleanJsonString s
     \<longleftrightarrow> cleanJsonString s = [] \<or> last (cleanJsonString s) \<noteq> CHR 0x60"
proof
  assume "cleanJsonString s = [] \<or> last (cleanJsonString s) \<noteq> CHR 0x60"
  then show "cleanJsonString (cleanJsonString s) = cleanJsonString s"
    by (rule cleanJsonString_again)
next
  assume again: "cleanJsonString (cleanJsonString s) = cleanJsonString s"
  show "cleanJsonString s = [] \<or> last (cleanJsonString s) \<noteq> CHR 0x60"
  proof (rule ccontr)
    assume "\<not> (cleanJsonString s = [] \<or> last (cleanJsonString s) \<noteq> CHR 0x60)"
    then obtain b where b: "cleanJsonString s = b @ [CHR 0x60]"
      by (cases "cleanJsonString s" rule: rev_cases) auto
    have "length (strip_trailing_backticks (b @ [CHR 0x60])) \<le> length b"
      using length_dropWhile_le [of "\<lambda>c. c = CHR 0x60" "rev b"]
      by (simp add: strip_trailing_backticks_def)
    moreover have "strip_fences (cleanJsonString s) = cleanJsonString s"
      by (rule strip_fences_no_fence) (rule cleanJsonString_fence_free)
    ultimately have "length (cleanJsonString (cleanJsonString s)) \<le> length b"
      using length_trim [of "strip_trailing_backticks (b @ [CHR 0x60])"]
      unfolding cleanJsonString_def [of "cleanJsonString s"] by (simp add: b)
    with again b show False by simp
  qed
qed

section \<open>Enumerations\<close>

lemma split_at_no_sep:
  "\<not> contains s sep \<Longrightarrow> split_at sep cur s = [rev cur @ s]"
proof (induction s arbitrary: cur)
  case Nil
  then show ?case by simp
next
  case (Cons c cs)
  then have "\<not> startsWith (c # cs) sep" "\<not> contains cs sep"
    by (simp_all add: contains_Cons)
  with Cons.IH [of "c # cur"] show ?case by simp
qed

lemma split_prefix_once:
  assumes "\<not> contains rest ''type:''"
  shows "split (''type:'' @ rest) ''type:'' = [[], rest]"
  using split_at_no_sep [OF assms, of "[]"] by (simp add: split_def startsWith_def)

lemma trim_enum: "trim (''enum['' @ inner @ '']'') = ''enum['' @ inner @ '']''"
  by (rule trim_id) (simp add: is_ws_def)

lemma validateType_enum:
  assumes "\<not> contains (''enum['' @ inner @ '']'') ''type:''"
  shows "validateType parse v (''type:enum['' @ inner @ '']'') key
           = (if v \<in> set (map JStr (map trim (split inner '','')))
              then Inr v
              else Inl (field_error key
                     (''must be one of: '' @ join '', '' (map trim (split inner '','')))))"
proof -
  have sp: "split (''type:enum['' @ inner @ '']'') ''type:'' = [[], ''enum['' @ inner @ '']'']"
    using split_prefix_once [OF assms] by simp
  have tr: "trim (''enum['' @ inner @ '']'') = ''enum['' @ inner @ '']''"
    by (rule trim_enum)
  have sl: "slice_5_m1 (''enum['' @ inner @ '']'') = inner"
    by (simp add: slice_5_m1_def butlast_append)
  have st: "startsWith (''type:enum['' @ inner @ '']'') ''type:''"
    "startsWith (''enum['' @ inner @ '']'') ''enum[''"
    by (simp_all add: startsWith_def)
  have lc: "toLowerCase (''enum['' @ inner @ '']'') = ''enum['' @ toLowerCase inner @ '']''"
    by (simp add: toLowerCase_def lower_char_def)
  show ?thesis
    unfolding validateType_def
    by (simp only: st sp tr sl lc Let_def list.case if_True not_True_eq_False if_False)
       (simp add: image_iff)
qed

lemma validateType_enum_colours:
  "validateType parse v ''type:enum[red,green,blue]'' key
     = (if v = JStr ''red'' \<or> v = JStr ''green'' \<or> v = JStr ''blue'' then Inr v
        else Inl (field_error key ''must be one of: red, green, blue''))"
proof -
  have nc: "\<not> contains (''enum['' @ ''red,green,blue'' @ '']'') ''type:''"
    by (simp add: contains_Cons contains_Nil startsWith_def)
  have opts: "map trim (split ''red,green,blue'' '','') = [''red'', ''green'', ''blue'']"
    by code_simp
  from validateType_enum [OF nc, of parse v key] show ?thesis
    by (simp add: opts)
qed

section \<open>Numbers read from text\<close>



























section \<open>Printing a number and reading it back\<close>


































section \<open>Validating a validated value\<close>


















section \<open>The sample values\<close>

lemma clean_fenced_sample: "cleanJsonString (fenced sample_text) = sample_text"
  by code_simp

lemma validate_sample:
  "validateSchema parse (JObj [(''name'', JStr ''John''), (''age'', JStr ''30'')]) sample_schema
     = Inr (JObj [(''name'', JStr ''John''), (''age'', JNum (num_of_int 30))])"
  by code_simp

lemma get_member_first: "get_member (JArr (x # xs)) ''0'' = Inr x"
  by (simp add: get_member_def get_property_def is_array_index_def is_canonical_index_def
      is_digit_def nat_of_digits_def digit_val_def)

lemma get_member_own: "get_member (JObj ((k, v) # kvs)) k = Inr v"
  by (simp add: get_member_def get_property_def)

lemma attempt_body_completion:
  "attempt_body rt schema cvs (Inr (completion content))
     = (case JSON_parse rt (cleanJsonString content) of
          Inl e \<Rightarrow> Inl e
        | Inr result \<Rightarrow>
            (case validateSchema (JSON_parse rt) result schema of
               Inl e \<Rightarrow> Inl e
             | Inr validated \<Rightarrow> run_validators cvs validated))"
  by (simp add: attempt_body_def completion_def get_member_first get_member_own)

lemma flaky_first: "attempt_body rt schema cvs (flaky_provider 0 req) = Inl (TypeError ''fetch failed'')"
  by (simp add: flaky_provider_def attempt_body_def)

lemma flaky_second:
  "attempt_body rt schema cvs (flaky_provider 1 req)
     = Inl (Error ''OpenRouter API error: rate limited'')"
  by (simp add: flaky_provider_def attempt_body_def get_member_own truthy_def)

lemma flaky_third:
  "attempt_body sample_runtime sample_schema [] (flaky_provider 2 req)
     = Inr (JObj [(''name'', JStr ''John''), (''age'', JNum (num_of_int 30))])"
  by (simp add: flaky_provider_def attempt_body_completion clean_fenced_sample validate_sample
      sample_runtime_def)

lemma failing_always:
  "attempt_body rt schema cvs (failing_provider i req) = Inl (TypeError ''fetch failed'')"
  by (simp add: failing_provider_def attempt_body_def)

lemma sample_schema_ok:
  "is_schema sample_schema" "sample_schema \<noteq> JUndefined" "sample_schema \<noteq> JNull"
  "entries_of sample_schema \<noteq> []"
  by (simp_all add: sample_schema_def entries_of_def)



section \<open>Claims\<close>

text \<open>
  C1. With an empty schema \<^verbatim>\<open>generate\<close> is to issue one model call, parse the raw
  response and return it, raising only a provider or a parse error. The code calls
  \<^verbatim>\<open>this._makeRequest\<close> there, which does not exist: for an empty schema (given, or left
  out) every call raises a TypeError, and nothing is sent.
\<close>

theorem generate_empty_schema_raises:
  "generate this rt fetch prompt (JObj []) systemPrompt customValidators
     = (Inl (TypeError ''this._makeRequest is not a function''), [])
   \<and> generate this rt fetch prompt JUndefined systemPrompt customValidators
     = (Inl (TypeError ''this._makeRequest is not a function''), [])"
  by (simp add: generate_def entries_of_def no_schema_path_def makeRequest_member_def)

text \<open>
  What the branch would do if the member existed: one call of it with the prompt and the
  system prompt, no retry, and the raw response parsed as it is.
\<close>

lemma no_schema_path_intended:
  "no_schema_path (Some f) rt prompt None
     = (case f prompt ''Generate a JSON object based on the prompt. Return only the raw JSON.'' of
          Inl e \<Rightarrow> Inl e | Inr response \<Rightarrow> JSON_parse rt response)"
  by (simp add: no_schema_path_def)

text \<open>
  C2. A failed leaf coercion is to name the offending field, also when it is reached
  through \<^verbatim>\<open>_validateSchema\<close>. That function passes the literal \<^verbatim>\<open>'field'\<close> as the
  name: for the field \<^verbatim>\<open>age\<close> the message names \<^verbatim>\<open>field\<close>.
\<close>

theorem validateSchema_names_placeholder:
  "validateSchema parse (JObj [(''age'', JStr ''abc'')]) (JObj [(''age'', JStr ''type:integer'')])
     = Inl (Error (''Field '' @ dq @ ''field'' @ dq @ '' must be an integer''))"
  by code_simp

text \<open>
  C3. With the default of three attempts, when the first two attempts fail and the third
  succeeds, \<^verbatim>\<open>generate\<close> returns the third attempt's validated result, after three
  requests, and the system message of the third request contains the message of the
  second attempt's error. When all \<open>n\<close> attempts fail, the promise rejects with the error
  of the last one. An attempt is a request to the provider and the \<^verbatim>\<open>try\<close> block run on
  what the provider answers; the request carries the message of the error before it.
\<close>

theorem generate_retry_behaviour:
  assumes schema: "schema \<noteq> JUndefined" "schema \<noteq> JNull" "entries_of schema \<noteq> []"
    and prompt: "createStructuredPrompt prompt schema = Inr up"
    and sys: "sys = finalSystemPrompt rt schema systemPrompt"
  shows
    "(maxRetries this = 3
      \<and> attempt_body rt schema cvs (fetch 0 (make_request this sys None up)) = Inl e1
      \<and> attempt_body rt schema cvs (fetch 1 (make_request this sys (Some (message e1)) up)) = Inl e2
      \<and> attempt_body rt schema cvs (fetch 2 (make_request this sys (Some (message e2)) up)) = Inr r
      \<longrightarrow> generate this rt fetch prompt schema systemPrompt cvs
            = (Inr r, [make_request this sys None up,
                       make_request this sys (Some (message e1)) up,
                       make_request this sys (Some (message e2)) up])
          \<and> contains (system_content (make_request this sys (Some (message e2)) up)) (message e2))
     \<and> (maxRetries this = int n \<and> 0 < n
        \<and> (\<forall>i<n. attempt_body rt schema cvs
                     (fetch i (make_request this sys
                        (if i = 0 then None else Some (message (errs (i - 1)))) up))
                   = Inl (errs i))
      \<longrightarrow> fst (generate this rt fetch prompt schema systemPrompt cvs) = Inl (errs (n - 1)))"
proof (intro conjI impI)
  assume a: "maxRetries this = 3
      \<and> attempt_body rt schema cvs (fetch 0 (make_request this sys None up)) = Inl e1
      \<and> attempt_body rt schema cvs (fetch 1 (make_request this sys (Some (message e1)) up)) = Inl e2
      \<and> attempt_body rt schema cvs (fetch 2 (make_request this sys (Some (message e2)) up)) = Inr r"
  have s0: "retry_loop this rt fetch schema cvs sys up 0 None []
              = retry_loop this rt fetch schema cvs sys up 1 (Some (message e1))
                  [make_request this sys None up]"
    using retry_loop_failure [of 0 this rt schema cvs fetch sys None up e1 "[]"] a by simp
  have s1: "retry_loop this rt fetch schema cvs sys up 1 (Some (message e1))
                  [make_request this sys None up]
              = retry_loop this rt fetch schema cvs sys up 2 (Some (message e2))
                  [make_request this sys None up, make_request this sys (Some (message e1)) up]"
    using retry_loop_failure [of 1 this rt schema cvs fetch sys "Some (message e1)" up e2
        "[make_request this sys None up]"] a by (simp add: eval_nat_numeral)
  have s2: "retry_loop this rt fetch schema cvs sys up 2 (Some (message e2))
                  [make_request this sys None up, make_request this sys (Some (message e1)) up]
              = (Inr r, [make_request this sys None up,
                         make_request this sys (Some (message e1)) up,
                         make_request this sys (Some (message e2)) up])"
    using retry_loop_success [of 2 this rt schema cvs fetch sys "Some (message e2)" up r
        "[make_request this sys None up, make_request this sys (Some (message e1)) up]"] a
    by (simp add: eval_nat_numeral)
  show "generate this rt fetch prompt schema systemPrompt cvs
            = (Inr r, [make_request this sys None up,
                       make_request this sys (Some (message e1)) up,
                       make_request this sys (Some (message e2)) up])"
    using generate_schema [OF schema prompt] s0 s1 s2 sys by simp
  show "contains (system_content (make_request this sys (Some (message e2)) up)) (message e2)"
    by (rule system_content_contains_error)
next
  assume b: "maxRetries this = int n \<and> 0 < n
        \<and> (\<forall>i<n. attempt_body rt schema cvs
                     (fetch i (make_request this sys
                        (if i = 0 then None else Some (message (errs (i - 1)))) up))
                   = Inl (errs i))"
  have "fst (retry_loop this rt fetch schema cvs sys up 0 None []) = Inl (errs (n - 1))"
    using b by (intro retry_loop_all_fail) auto
  then show "fst (generate this rt fetch prompt schema systemPrompt cvs) = Inl (errs (n - 1))"
    using generate_schema [OF schema prompt] sys by simp
qed

theorem generate_retry_behaviour_witness:
  "fst (generate sample_generator sample_runtime flaky_provider ''John, 30'' sample_schema None [])
     = Inr (JObj [(''name'', JStr ''John''), (''age'', JNum (num_of_int 30))])
   \<and> length (snd (generate sample_generator sample_runtime flaky_provider ''John, 30''
                  sample_schema None [])) = 3
   \<and> contains
        (system_content
           (last (snd (generate sample_generator sample_runtime flaky_provider ''John, 30''
                         sample_schema None []))))
        ''OpenRouter API error: rate limited''
   \<and> fst (generate sample_generator sample_runtime failing_provider ''John, 30'' sample_schema
            None [])
     = Inl (TypeError ''fetch failed'')"
proof -
  obtain up where up: "createStructuredPrompt ''John, 30'' sample_schema = Inr up"
    using createStructuredPrompt_schema [OF sample_schema_ok(1)] by blast
  define sys where "sys = finalSystemPrompt sample_runtime sample_schema None"
  define r where "r = JObj [(''name'', JStr ''John''), (''age'', JNum (num_of_int 30))]"
  define e1 where "e1 = TypeError ''fetch failed''"
  define e2 where "e2 = Error ''OpenRouter API error: rate limited''"
  define g where "g = generate sample_generator sample_runtime flaky_provider ''John, 30''
    sample_schema None []"
  have m: "maxRetries sample_generator = 3" by (simp add: sample_generator_def)
  note inst = generate_retry_behaviour [OF sample_schema_ok(2,3,4) up sys_def]
  have A: "maxRetries sample_generator = 3
      \<and> attempt_body sample_runtime sample_schema []
            (flaky_provider 0 (make_request sample_generator sys None up)) = Inl e1
      \<and> attempt_body sample_runtime sample_schema []
            (flaky_provider 1 (make_request sample_generator sys (Some (message e1)) up)) = Inl e2
      \<and> attempt_body sample_runtime sample_schema []
            (flaky_provider 2 (make_request sample_generator sys (Some (message e2)) up)) = Inr r"
    unfolding e1_def e2_def r_def
    by (intro conjI m flaky_first flaky_second flaky_third)
  have a: "g = (Inr r, [make_request sample_generator sys None up,
                        make_request sample_generator sys (Some (message e1)) up,
                        make_request sample_generator sys (Some (message e2)) up])
           \<and> contains (system_content (make_request sample_generator sys (Some (message e2)) up))
                 (message e2)"
    unfolding g_def
    by (rule inst [of sample_generator "[]" flaky_provider e1 e2 r, THEN conjunct1, THEN mp, OF A])
  have B: "maxRetries sample_generator = int 3 \<and> 0 < (3::nat)
      \<and> (\<forall>i<3. attempt_body sample_runtime sample_schema []
                     (failing_provider i (make_request sample_generator sys
                        (if i = 0 then None else Some (message ((\<lambda>i. TypeError ''fetch failed'') (i - 1)))) up))
                   = Inl ((\<lambda>i. TypeError ''fetch failed'') i))"
    by (simp add: m failing_always)
  have b: "fst (generate sample_generator sample_runtime failing_provider ''John, 30''
                  sample_schema None []) = Inl (TypeError ''fetch failed'')"
    using inst [of sample_generator "[]" failing_provider _ _ _ 3
        "\<lambda>i. TypeError ''fetch failed''", THEN conjunct2, THEN mp, OF B]
    by simp
  have g1: "fst g = Inr r" using a by simp
  have g2: "length (snd g) = 3" using a by simp
  have g3: "contains (system_content (last (snd g))) (message e2)" using a by simp
  from g1 g2 g3 b show ?thesis
    unfolding g_def r_def e2_def by simp
qed

text \<open>
  C4. A declared key that the data lacks is to fail the validation with
  \<^verbatim>\<open>Missing required field\<close>. The test \<^verbatim>\<open>key in data\<close> also finds the properties that
  every object inherits: for the empty object and a schema that declares
  \<^verbatim>\<open>constructor\<close> the validation succeeds, with the inherited function, as text, for
  the field's value.
\<close>

theorem validateSchema_inherited_key:
  "validateSchema parse (JObj []) (JObj [(''constructor'', JStr ''type:string'')])
     = Inr (JObj [(''constructor'', JStr ''function Object() { [native code] }'')])"
  by code_simp

text \<open>
  C5, as the code has it. The fenced sample of the specification is sanitized to its
  content. Every code fence is removed, the leftmost first: three backticks, then
  \<^verbatim>\<open>json\<close> when it follows, then a line feed when it follows. From a text with no code
  fence the backticks at the end are removed, then the white space at both ends, in this
  order: a backtick that white space separated from the end stays. Clean text (no code
  fence, no white space at either end, no backtick at the end) is left as it is. An output
  has no code fence and no white space at either end, and sanitizing it again changes
  nothing exactly when it does not end with a backtick.
\<close>

theorem cleanJsonString_clean_fixpoint:
  "cleanJsonString (fenced (''{'' @ dq @ ''a'' @ dq @ '':1}'')) = ''{'' @ dq @ ''a'' @ dq @ '':1}''
   \<and> (\<not> contains pre code_fence \<and> (pre = [] \<or> last pre \<noteq> CHR 0x60)
       \<and> (tag = ''json'' \<or> (tag = [] \<and> \<not> startsWith (nl @ rest) ''json''))
       \<and> (nl = [CHR 0x0A] \<or> (nl = [] \<and> \<not> startsWith rest [CHR 0x0A]))
       \<longrightarrow> cleanJsonString (pre @ code_fence @ tag @ nl @ rest) = cleanJsonString (pre @ rest))
   \<and> (\<not> contains (ws1 @ core @ ws2 @ replicate n (CHR 0x60)) code_fence
       \<and> list_all is_ws ws1 \<and> list_all is_ws ws2
       \<and> (core = [] \<or> (\<not> is_ws (hd core) \<and> \<not> is_ws (last core)))
       \<and> (ws2 = [] \<longrightarrow> core = [] \<or> last core \<noteq> CHR 0x60)
       \<longrightarrow> cleanJsonString (ws1 @ core @ ws2 @ replicate n (CHR 0x60)) = core)
   \<and> (is_clean text \<longrightarrow> cleanJsonString text = text)
   \<and> \<not> contains (cleanJsonString s) code_fence
   \<and> (cleanJsonString s = []
       \<or> (\<not> is_ws (hd (cleanJsonString s)) \<and> \<not> is_ws (last (cleanJsonString s))))
   \<and> (cleanJsonString (cleanJsonString s) = cleanJsonString s
       \<longleftrightarrow> cleanJsonString s = [] \<or> last (cleanJsonString s) \<noteq> CHR 0x60)"
proof (intro conjI impI)
  show "cleanJsonString (fenced (''{'' @ dq @ ''a'' @ dq @ '':1}'')) = ''{'' @ dq @ ''a'' @ dq @ '':1}''"
    by code_simp
  show "cleanJsonString (pre @ code_fence @ tag @ nl @ rest) = cleanJsonString (pre @ rest)"
    if "\<not> contains pre code_fence \<and> (pre = [] \<or> last pre \<noteq> CHR 0x60)
       \<and> (tag = ''json'' \<or> (tag = [] \<and> \<not> startsWith (nl @ rest) ''json''))
       \<and> (nl = [CHR 0x0A] \<or> (nl = [] \<and> \<not> startsWith rest [CHR 0x0A]))"
    using that by (intro cleanJsonString_fence) blast+
  show "cleanJsonString (ws1 @ core @ ws2 @ replicate n (CHR 0x60)) = core"
    if "\<not> contains (ws1 @ core @ ws2 @ replicate n (CHR 0x60)) code_fence
       \<and> list_all is_ws ws1 \<and> list_all is_ws ws2
       \<and> (core = [] \<or> (\<not> is_ws (hd core) \<and> \<not> is_ws (last core)))
       \<and> (ws2 = [] \<longrightarrow> core = [] \<or> last core \<noteq> CHR 0x60)"
    using that by (intro cleanJsonString_stages) blast+
  show "cleanJsonString text = text" if "is_clean text"
    using that by (rule cleanJsonString_clean)
  show "\<not> contains (cleanJsonString s) code_fence"
    by (rule cleanJsonString_fence_free)
  show "cleanJsonString s = []
       \<or> (\<not> is_ws (hd (cleanJsonString s)) \<and> \<not> is_ws (last (cleanJsonString s)))"
    unfolding cleanJsonString_def by (rule trim_ends)
  show "cleanJsonString (cleanJsonString s) = cleanJsonString s
       \<longleftrightarrow> cleanJsonString s = [] \<or> last (cleanJsonString s) \<noteq> CHR 0x60"
    by (rule cleanJsonString_again_iff)
qed

theorem cleanJsonString_clean_fixpoint_witness:
  "cleanJsonString (code_fence @ ''json'' @ [CHR 0x0A] @ ''{}'') = cleanJsonString ''{}''
   \<and> cleanJsonString ('' {}'' @ replicate 2 (CHR 0x60)) = ''{}''
   \<and> cleanJsonString (''{}'' @ [CHR 0x60] @ '' '') = ''{}'' @ [CHR 0x60]
   \<and> is_clean ''{}'' \<and> cleanJsonString ''{}'' = ''{}''
   \<and> last (cleanJsonString (fenced sample_text)) \<noteq> CHR 0x60
   \<and> cleanJsonString (cleanJsonString (fenced sample_text)) = cleanJsonString (fenced sample_text)"
proof -
  have nf: "\<not> contains [] code_fence" "\<not> contains ('' {}'' @ replicate 2 (CHR 0x60)) code_fence"
    "\<not> contains (''{}'' @ [CHR 0x60] @ '' '') code_fence"
    by (simp_all add: contains_Cons contains_Nil startsWith_def code_fence_def eval_nat_numeral)
  have c: "is_clean ''{}''"
    by (simp add: is_clean_def contains_Cons contains_Nil startsWith_def code_fence_def is_ws_def)
  have l: "last (cleanJsonString (fenced sample_text)) \<noteq> CHR 0x60"
    by (subst clean_fenced_sample) (simp add: sample_text_def dq_def)
  have 1: "cleanJsonString ([] @ code_fence @ ''json'' @ [CHR 0x0A] @ ''{}'')
             = cleanJsonString ([] @ ''{}'')"
    using cleanJsonString_clean_fixpoint [where pre = "[]" and tag = "''json''"
          and nl = "[CHR 0x0A]" and rest = "''{}''",
        THEN conjunct2, THEN conjunct1] nf(1) by simp
  have 2: "cleanJsonString ('' '' @ ''{}'' @ [] @ replicate 2 (CHR 0x60)) = ''{}''"
    using cleanJsonString_clean_fixpoint [where ?ws1.0 = "'' ''" and core = "''{}''"
          and ?ws2.0 = "[]" and n = 2, THEN conjunct2, THEN conjunct2, THEN conjunct1] nf(2)
    by (simp add: is_ws_def)
  have 3: "cleanJsonString ([] @ (''{}'' @ [CHR 0x60]) @ '' '' @ replicate 0 (CHR 0x60))
             = ''{}'' @ [CHR 0x60]"
    using cleanJsonString_clean_fixpoint [where ?ws1.0 = "[]" and core = "''{}'' @ [CHR 0x60]"
          and ?ws2.0 = "'' ''" and n = 0, THEN conjunct2, THEN conjunct2, THEN conjunct1] nf(3)
    by (simp add: is_ws_def)
  have 4: "cleanJsonString ''{}'' = ''{}''"
    using cleanJsonString_clean_fixpoint [where ?text = "''{}''",
        THEN conjunct2, THEN conjunct2, THEN conjunct2, THEN conjunct1] c by simp
  have 5: "cleanJsonString (cleanJsonString (fenced sample_text)) = cleanJsonString (fenced sample_text)"
    using cleanJsonString_clean_fixpoint [where s = "fenced sample_text",
        THEN conjunct2, THEN conjunct2, THEN conjunct2, THEN conjunct2, THEN conjunct2,
        THEN conjunct2] l by simp
  from 1 2 3 4 5 c l show ?thesis by simp
qed

text \<open>
  C5 as stated fails: the output for a text that ends with a backtick and a space still
  ends with the backtick, and sanitizing it again removes it.
\<close>

theorem cleanJsonString_not_idempotent:
  "cleanJsonString (''{}'' @ [CHR 0x60] @ '' '') = ''{}'' @ [CHR 0x60]
   \<and> cleanJsonString (cleanJsonString (''{}'' @ [CHR 0x60] @ '' '')) = ''{}''"
  by code_simp

text \<open>
  C6. A value is to pass an enumeration exactly when it is one of the options. The kind is
  read as \<^verbatim>\<open>type.split('type:')[1]\<close>, the text up to the next \<^verbatim>\<open>type:\<close>: an option that
  contains \<^verbatim>\<open>type:\<close> cuts the list short. For \<^verbatim>\<open>type:enum[type:a,b]\<close> the only option
  left is the empty text, and the listed option \<^verbatim>\<open>b\<close> is refused with a message that lists
  nothing. (With no \<^verbatim>\<open>type:\<close> in the options the claim holds: \<open>validateType_enum\<close>.)
\<close>

theorem validateType_enum_truncated:
  "validateType parse (JStr ''b'') ''type:enum[type:a,b]'' ''k''
     = Inl (Error (''Field '' @ dq @ ''k'' @ dq @ '' must be one of: ''))"
  by code_simp

text \<open>
  C7. Every key of an object is to appear in the wrapped template between the
  delimiters. With the delimiter \<^verbatim>\<open>__\<close> the key \<^verbatim>\<open>proto\<close> is wrapped to
  \<^verbatim>\<open>__proto__\<close>, the assignment goes to the inherited accessor, and the key is lost.
\<close>

theorem wrapFormat_loses_proto_key:
  "wrapFormat (sample_generator \<lparr> delimiter := ''__'' \<rparr>) (JObj [(''proto'', JStr ''type:string'')]) 1
     = JObj []"
  by code_simp







text \<open>
  C10. A generator constructed with \<^verbatim>\<open>maxRetries\<close> at most 0 runs the loop body no
  time: for every schema that is not empty, \<^verbatim>\<open>generate\<close> resolves to \<^verbatim>\<open>undefined\<close>
  and sends no request.
\<close>

theorem generate_without_attempts:
  assumes "constructor c = Inr this" and "cfg_maxRetries c = Some n" and "n \<le> 0"
    and "is_schema schema" and "entries_of schema \<noteq> []"
  shows "generate this rt fetch prompt schema systemPrompt customValidators
           = (Inr JUndefined, [])"
proof -
  have m: "maxRetries this \<le> int 0"
    using constructor_maxRetries [OF assms(1,2)] assms(3) by simp
  obtain sp where sp: "createStructuredPrompt prompt schema = Inr sp"
    using createStructuredPrompt_schema [OF assms(4)] by blast
  have ne: "schema \<noteq> JUndefined" "schema \<noteq> JNull"
    using assms(4) by auto
  show ?thesis
    using ne assms(5) sp retry_loop_exhausted [OF m]
    by (simp add: generate_def Let_def)
qed

theorem generate_without_attempts_witness:
  "constructor \<lparr> cfg_apiKey = Some ''test-key'', cfg_model = None, cfg_referer = None,
                 cfg_appName = None, cfg_maxRetries = Some 0, cfg_delimiter = None \<rparr>
     = Inr (sample_generator \<lparr> maxRetries := 0 \<rparr>)
   \<and> generate (sample_generator \<lparr> maxRetries := 0 \<rparr>) sample_runtime flaky_provider ''John, 30''
        sample_schema None []
     = (Inr JUndefined, [])"
proof -
  have c: "constructor \<lparr> cfg_apiKey = Some ''test-key'', cfg_model = None, cfg_referer = None,
                 cfg_appName = None, cfg_maxRetries = Some 0, cfg_delimiter = None \<rparr>
     = Inr (sample_generator \<lparr> maxRetries := 0 \<rparr>)"
    by (simp add: constructor_def sample_generator_def)
  from generate_without_attempts [OF c _ _ sample_schema_ok(1,4), of 0] c
  show ?thesis by simp
qed

end
